theory Spec2Isabelle
  imports Main "HOL-Library.Word"
begin

unbundle bit_operations_syntax

section \<open>Exceptions\<close>

text \<open>
  The Python exceptions that the modelled code raises or lets through. A function that
  can raise returns \<open>error + 'a\<close>, with \<open>Inl\<close> for the exception.
\<close>

datatype error =
    KeyError
  | TypeError
  | ValueError
  | AttributeError string
  | RuntimeError string
  | NotImplementedError
  | CalledProcessError int "string list"
  | IOError
  | SocketTimeout
  | SocketError
  | OSError
  | UnicodeEncodeError
  | Failure string

section \<open>Python values\<close>

text \<open>
  The values a parameter or slot holds: what the YAML of an experiment definition or
  the JSON of a guest agent message can carry. A dictionary is the list of its items,
  with string keys. A string is held as the bytes of its UTF-8 encoding; the program is
  Python 2, where the strings that \<open>json.loads\<close> returns, and the strings of a YAML
  document that are not plain ASCII, are \<open>unicode\<close> objects.
\<close>

datatype pyval =
    PNone
  | PBool bool
  | PNum int
  | PStr string
  | PList "pyval list"
  | PDict "(string \<times> pyval) list"

text \<open>\<open>needle in haystack\<close> for two strings.\<close>

fun is_substring :: "string \<Rightarrow> string \<Rightarrow> bool" where
  "is_substring xs [] = (xs = [])"
| "is_substring xs (y # ys) = (take (length xs) (y # ys) = xs \<or> is_substring xs ys)"

text \<open>
  \<open>key in v\<close> and \<open>v[key]\<close> for a string \<open>key\<close>, with the exceptions Python raises.
\<close>

fun py_contains :: "string \<Rightarrow> pyval \<Rightarrow> error + bool" where
  "py_contains key (PDict items) = Inr (key \<in> fst ` set items)"
| "py_contains key (PList xs) = Inr (PStr key \<in> set xs)"
| "py_contains key (PStr s) = Inr (is_substring key s)"
| "py_contains key _ = Inl TypeError"

fun getitem :: "pyval \<Rightarrow> string \<Rightarrow> error + pyval" where
  "getitem (PDict items) key = (case map_of items key of None \<Rightarrow> Inl KeyError | Some v \<Rightarrow> Inr v)"
| "getitem _ key = Inl TypeError"

text \<open>\<open>message[outer][inner]\<close>.\<close>

definition getitem2 :: "pyval \<Rightarrow> string \<Rightarrow> string \<Rightarrow> error + pyval" where
  "getitem2 message outer inner =
     (case getitem message outer of Inl e \<Rightarrow> Inl e | Inr v \<Rightarrow> getitem v inner)"

text \<open>\<open>v[key] = x\<close> for a string \<open>key\<close>: the dictionary with the item set.\<close>

fun setitem :: "pyval \<Rightarrow> string \<Rightarrow> pyval \<Rightarrow> error + pyval" where
  "setitem (PDict items) key x =
     Inr (PDict (if key \<in> fst ` set items
                 then map (\<lambda>(k, v). if k = key then (k, x) else (k, v)) items
                 else items @ [(key, x)]))"
| "setitem _ key x = Inl TypeError"

text \<open>Whether a value can be a dictionary key: lists and dictionaries are unhashable.\<close>

fun hashable :: "pyval \<Rightarrow> bool" where
  "hashable (PList xs) = False"
| "hashable (PDict items) = False"
| "hashable _ = True"

text \<open>
  The text \<open>"{}".format(v)\<close> puts for \<open>v\<close>. The template is a byte string, so a \<open>unicode\<close>
  argument is encoded as ASCII and one that is not ASCII raises \<open>UnicodeEncodeError\<close>;
  nothing else raises. \<open>repr\<close> gives the text of a list or a dictionary.
\<close>

definition is_ascii :: "string \<Rightarrow> bool" where
  "is_ascii s = list_all (\<lambda>c. (of_char c :: nat) < 128) s"

fun decimal :: "nat \<Rightarrow> string" where
  "decimal n = (if n < 10 then [''0123456789'' ! n] else decimal (n div 10) @ [''0123456789'' ! (n mod 10)])"

fun format_value :: "(pyval \<Rightarrow> string) \<Rightarrow> pyval \<Rightarrow> error + string" where
  "format_value repr (PStr s) = (if is_ascii s then Inr s else Inl UnicodeEncodeError)"
| "format_value repr (PNum n) = Inr (if n < 0 then ''-'' @ decimal (nat (- n)) else decimal (nat n))"
| "format_value repr PNone = Inr ''None''"
| "format_value repr (PBool b) = Inr (if b then ''True'' else ''False'')"
| "format_value repr v = Inr (repr v)"

section \<open>Python classes\<close>

text \<open>
  A class as the composition of techniques needs it: its name, its bases in order, and
  the attributes its body defines. An attribute of a class body is one of the
  descriptors of \<open>pypette.interface\<close> or a method; for a method the model keeps whether
  its body does something (\<open>Concrete\<close>), is \<open>pass\<close>, or is \<open>raise NotImplementedError()\<close>
  (\<open>Abstract\<close>).
\<close>

datatype body = Concrete | Pass | Abstract

datatype member = Parameter string | Slot string | Method body

datatype py_class =
  Class (class_name: string) (bases: "py_class list") (members: "(string \<times> member) list")

text \<open>
  The merge step of the C3 linearisation that \<open>type(name, bases, dict)\<close> runs: take the
  first head that is in no tail, remove it from the front of every sequence, repeat;
  \<open>None\<close> when no head qualifies (Python raises \<open>TypeError\<close>).
\<close>

definition c3_candidate :: "'a list list \<Rightarrow> 'a option" where
  "c3_candidate seqs = find (\<lambda>h. \<forall>s \<in> set seqs. h \<notin> set (tl s)) (map hd seqs)"

function c3_merge :: "'a list list \<Rightarrow> 'a list option" where
  "c3_merge seqs =
     (let live = filter (\<lambda>s. s \<noteq> []) seqs
      in if live = [] then Some []
         else case c3_candidate live of
                None \<Rightarrow> None
              | Some h \<Rightarrow> map_option (Cons h) (c3_merge (map (\<lambda>s. if hd s = h then tl s else s) live)))"
  by pat_completeness auto
termination
proof (relation "measure (\<lambda>seqs. sum_list (map length seqs))")
  show "wf (measure (\<lambda>seqs :: 'a list list. sum_list (map length seqs)))" by simp
next
  fix seqs live :: "'a list list" and h :: 'a
  assume live: "live = filter (\<lambda>s. s \<noteq> []) seqs" and "live \<noteq> []" and cand: "c3_candidate live = Some h"
  let ?drop = "\<lambda>s. if hd s = h then tl s else s"
  have strict: "sum_list (map length (map ?drop xs)) < sum_list (map length xs)"
    if "\<forall>s \<in> set xs. s \<noteq> []" and "\<exists>s \<in> set xs. hd s = h" for xs :: "'a list list"
    using that
  proof (induction xs)
    case Nil
    then show ?case by simp
  next
    case (Cons x xs)
    have le: "sum_list (map length (map ?drop ys)) \<le> sum_list (map length ys)" for ys :: "'a list list"
      by (induction ys) auto
    show ?case
    proof (cases "hd x = h")
      case True
      with Cons.prems(1) have "length (?drop x) < length x" by (cases x) auto
      with le [of xs] show ?thesis by simp
    next
      case False
      with Cons have "sum_list (map length (map ?drop xs)) < sum_list (map length xs)" by auto
      with False show ?thesis by simp
    qed
  qed
  from cand have "h \<in> set (map hd live)"
    by (auto simp: c3_candidate_def find_Some_iff)
  then have "\<exists>s \<in> set live. hd s = h" by auto
  moreover have "\<forall>s \<in> set live. s \<noteq> []" by (simp add: live)
  ultimately have "sum_list (map length (map ?drop live)) < sum_list (map length live)"
    by (rule strict [rotated])
  moreover have "sum_list (map length live) \<le> sum_list (map length seqs)"
    unfolding live by (induction seqs) auto
  ultimately show "(map ?drop live, seqs) \<in> measure (\<lambda>seqs. sum_list (map length seqs))"
    by simp
qed

text \<open>The method resolution order of a class: the class, then the merge of its bases' orders and its bases.\<close>

fun mro :: "py_class \<Rightarrow> py_class list option" where
  "mro (Class name bs ms) =
     (case those (map mro bs) of
        None \<Rightarrow> None
      | Some orders \<Rightarrow> map_option (Cons (Class name bs ms)) (c3_merge (orders @ [bs])))"

text \<open>\<open>type(name, bases, dict)\<close>.\<close>

definition py_type :: "string \<Rightarrow> py_class list \<Rightarrow> (string \<times> member) list \<Rightarrow> error + py_class" where
  "py_type name bs ms = (case mro (Class name bs ms) of None \<Rightarrow> Inl TypeError | Some _ \<Rightarrow> Inr (Class name bs ms))"

text \<open>
  Looking an attribute up through a class: the first class of the method resolution
  order whose body defines it, with what it defines there.
\<close>

definition has_member :: "string \<Rightarrow> py_class \<Rightarrow> bool" where
  "has_member name c = (name \<in> fst ` set (members c))"

definition class_lookup :: "py_class \<Rightarrow> string \<Rightarrow> (py_class \<times> member) option" where
  "class_lookup c name =
     (case mro c of
        None \<Rightarrow> None
      | Some order \<Rightarrow>
          (case find (has_member name) order of
             None \<Rightarrow> None
           | Some k \<Rightarrow> map_option (Pair k) (map_of (members k) name)))"

text \<open>\<open>TABLE[key]\<close> for a dictionary literal with string keys.\<close>

definition table_lookup :: "(string \<times> 'a) list \<Rightarrow> pyval \<Rightarrow> error + 'a" where
  "table_lookup table key =
     (if \<not> hashable key then Inl TypeError
      else case key of
             PStr s \<Rightarrow> (case map_of table s of None \<Rightarrow> Inl KeyError | Some v \<Rightarrow> Inr v)
           | _ \<Rightarrow> Inl KeyError)"

section \<open>pypette.interface\<close>

text \<open>
  An instance of a component: its class, the \<open>parameters\<close> dictionary given to
  \<open>__init__\<close>, the \<open>output\<close> dictionary of sample slots (\<open>output_dict\<close>; \<open>None\<close> on an
  instance that has no such attribute), and the other attributes in its \<open>__dict__\<close>.
\<close>

record component =
  klass :: py_class
  parameters :: pyval
  output_dict :: "pyval option"
  attributes :: "string \<rightharpoonup> pyval"

text \<open>\<open>Parameter.__get__\<close> and \<open>Parameter.__set__\<close> on an instance.\<close>

definition parameter_get :: "component \<Rightarrow> string \<Rightarrow> error + pyval" where
  "parameter_get self name = getitem (parameters self) name"

definition parameter_set :: "component \<Rightarrow> string \<Rightarrow> pyval \<Rightarrow> (error + unit) \<times> component" where
  "parameter_set self name v = (Inl (AttributeError ''Parameter dictionary is read-only''), self)"

text \<open>\<open>Slot.__get__\<close> and \<open>Slot.__set__\<close> on an instance.\<close>

definition slot_get :: "component \<Rightarrow> string \<Rightarrow> error + pyval" where
  "slot_get self name =
     (case output_dict self of
        None \<Rightarrow> Inl (AttributeError ''output'')
      | Some d \<Rightarrow> getitem d name)"

definition slot_set :: "component \<Rightarrow> string \<Rightarrow> pyval \<Rightarrow> (error + unit) \<times> component" where
  "slot_set self name v =
     (case output_dict self of
        None \<Rightarrow> (Inl (AttributeError ''output''), self)
      | Some d \<Rightarrow>
          (case setitem d name v of
             Inl e \<Rightarrow> (Inl e, self)
           | Inr d' \<Rightarrow> (Inr (), self\<lparr>output_dict := Some d'\<rparr>)))"

text \<open>
  The statement \<open>self.name = v\<close>: a \<open>Parameter\<close> or \<open>Slot\<close> found through the class takes the
  assignment; anything else binds the attribute on the instance.
\<close>

definition py_setattr :: "component \<Rightarrow> string \<Rightarrow> pyval \<Rightarrow> (error + unit) \<times> component" where
  "py_setattr self name v =
     (case class_lookup (klass self) name of
        Some (c, Parameter key) \<Rightarrow> parameter_set self key v
      | Some (c, Slot key) \<Rightarrow> slot_set self key v
      | _ \<Rightarrow>
          (Inr (),
           if name = ''parameters'' then self\<lparr>parameters := v\<rparr>
           else if name = ''output'' then self\<lparr>output_dict := Some v\<rparr>
           else self\<lparr>attributes := (attributes self)(name \<mapsto> v)\<rparr>))"

text \<open>
  A run of assignments, each in its own \<open>try\<close>: the exceptions raised, in order, and the
  instance afterwards.
\<close>

fun assign_all :: "component \<Rightarrow> (string \<times> pyval) list \<Rightarrow> error list \<times> component" where
  "assign_all self [] = ([], self)"
| "assign_all self ((name, v) # rest) =
     (case py_setattr self name v of
        (Inl e, self') \<Rightarrow> (let (es, self'') = assign_all self' rest in (e # es, self''))
      | (Inr _, self') \<Rightarrow> assign_all self' rest)"

text \<open>\<open>Technique.__init__\<close> and \<open>Analyst.__init__\<close> on a new instance of \<open>cls\<close>.\<close>

definition Technique_init :: "py_class \<Rightarrow> pyval \<Rightarrow> component" where
  "Technique_init cls params =
     \<lparr>klass = cls, parameters = params, output_dict = Some (PDict []), attributes = Map.empty\<rparr>"

definition Analyst_init :: "py_class \<Rightarrow> pyval \<Rightarrow> component" where
  "Analyst_init cls params =
     \<lparr>klass = cls, parameters = params, output_dict = None, attributes = Map.empty\<rparr>"

text \<open>The classes of the module.\<close>

definition object_class :: py_class where
  "object_class = Class ''object'' [] []"

definition Analyst_class :: py_class where
  "Analyst_class = Class ''Analyst'' [object_class]
     [(''__init__'', Method Concrete), (''analyse'', Method Abstract),
      (''collate'', Method Pass), (''discard'', Method Pass)]"

definition Technique_class :: py_class where
  "Technique_class = Class ''Technique'' [object_class]
     [(''__init__'', Method Concrete), (''allocate'', Method Pass),
      (''sample'', Method Abstract), (''release'', Method Pass)]"

definition Behaviour_class :: py_class where
  "Behaviour_class = Class ''Behaviour'' [object_class]
     [(''allocate_behaviour'', Method Pass), (''release_behaviour'', Method Pass)]"

text \<open>\<open>Registry\<close>: a dictionary of components by name.\<close>

definition register :: "(string \<rightharpoonup> 'c) \<Rightarrow> string \<Rightarrow> 'c \<Rightarrow> (string \<rightharpoonup> 'c)" where
  "register components name c = components(name \<mapsto> c)"

definition registry_get :: "(string \<rightharpoonup> 'c) \<Rightarrow> string \<Rightarrow> error + 'c" where
  "registry_get components name = (case components name of None \<Rightarrow> Inl KeyError | Some c \<Rightarrow> Inr c)"

section \<open>pypette.volume\<close>

text \<open>
  The host as \<open>volume.py\<close> sees it: the entries of \<open>/dev\<close>, the text of
  \<open>/proc/partitions\<close> at each successive read, the exit status of each successive
  external command, the names handed out by \<open>tempfile.mkdtemp\<close>, whether
  \<open>shutil.copy\<close> and \<open>os.rmdir\<close> succeed, and the log of what has been done so far.
\<close>

datatype sys_event =
    Exec "string list"
  | Mkdtemp string
  | Rmdir string
  | Copy string string

record host =
  dev_entries :: "string list"
  proc_partitions :: "nat \<Rightarrow> string"
  reads :: nat
  exit_status :: "nat \<Rightarrow> int"
  temp_name :: "nat \<Rightarrow> string"
  copy_ok :: bool
  rmdir_ok :: bool
  log :: "sys_event list"

text \<open>\<open>os.path.basename\<close>: everything after the last slash.\<close>

definition basename :: "string \<Rightarrow> string" where
  "basename p = rev (takeWhile (\<lambda>c. c \<noteq> CHR ''/'') (rev p))"

text \<open>\<open>os.path.join\<close> of two components.\<close>

definition path_join :: "string \<Rightarrow> string \<Rightarrow> string" where
  "path_join a b =
     (if b \<noteq> [] \<and> hd b = CHR ''/'' then b
      else if a = [] \<or> last a = CHR ''/'' then a @ b
      else a @ ''/'' @ b)"

definition is_digit :: "char \<Rightarrow> bool" where
  "is_digit c = (c \<in> set ''0123456789'')"

text \<open>\<open>glob.glob("/dev/nbd?")\<close>: the entries of \<open>/dev\<close> called \<open>nbd\<close> plus one character.\<close>

definition glob_nbd :: "string list \<Rightarrow> string list" where
  "glob_nbd entries = map (\<lambda>e. ''/dev/'' @ e) (filter (\<lambda>e. length e = 4 \<and> take 3 e = ''nbd'') entries)"

text \<open>\<open>re.findall("nbd[0-9]", text)\<close>: the non-overlapping matches, leftmost first.\<close>

fun findall_nbd :: "string \<Rightarrow> string list" where
  "findall_nbd (a # b # c # d # rest) =
     (if a = CHR ''n'' \<and> b = CHR ''b'' \<and> c = CHR ''d'' \<and> is_digit d
      then [a, b, c, d] # findall_nbd rest
      else findall_nbd (b # c # d # rest))"
| "findall_nbd _ = []"

text \<open>\<open>re.findall("nbd[0-9]p[0-9]", text)\<close>.\<close>

fun findall_nbd_partition :: "string \<Rightarrow> string list" where
  "findall_nbd_partition (a # b # c # d # e # f # rest) =
     (if a = CHR ''n'' \<and> b = CHR ''b'' \<and> c = CHR ''d'' \<and> is_digit d \<and> e = CHR ''p'' \<and> is_digit f
      then [a, b, c, d, e, f] # findall_nbd_partition rest
      else findall_nbd_partition (b # c # d # e # f # rest))"
| "findall_nbd_partition _ = []"

text \<open>Reading \<open>/proc/partitions\<close> returns the text current at that read.\<close>

definition read_partitions :: "host \<Rightarrow> string \<times> host" where
  "read_partitions h = (proc_partitions h (reads h), h\<lparr>reads := Suc (reads h)\<rparr>)"

definition device_nodes :: "host \<Rightarrow> string set" where
  "device_nodes h = set (map basename (glob_nbd (dev_entries h)))"

definition attached_device_nodes :: "host \<Rightarrow> string set \<times> host" where
  "attached_device_nodes h = (let (table, h') = read_partitions h in (set (findall_nbd table), h'))"

definition attached_partitions :: "host \<Rightarrow> string set \<times> host" where
  "attached_partitions h = (let (table, h') = read_partitions h in (set (findall_nbd_partition table), h'))"

text \<open>
  \<open>available.pop()\<close> removes and returns an arbitrary element of the set and raises
  \<open>KeyError\<close> on the empty set. Which element is not determined by the program, so
  the model returns the set of the possible outcomes.
\<close>

definition set_pop :: "'a set \<Rightarrow> (error + 'a) set" where
  "set_pop s = (if s = {} then {Inl KeyError} else Inr ` s)"

definition available_device_node :: "host \<Rightarrow> ((error + string) \<times> host) set" where
  "available_device_node h =
     (let (attached, h') = attached_device_nodes h;
          available = device_nodes h - attached
      in (\<lambda>r. (r, h')) ` set_pop available)"

text \<open>
  \<open>subprocess.check_call\<close>: run the command, raise \<open>CalledProcessError\<close> when its exit
  status is not zero. The exit status of the k-th command run on the host is
  \<open>exit_status h k\<close>.
\<close>

definition executed :: "host \<Rightarrow> string list list" where
  "executed h = concat (map (\<lambda>e. case e of Exec argv \<Rightarrow> [argv] | _ \<Rightarrow> []) (log h))"

definition check_call :: "host \<Rightarrow> string list \<Rightarrow> (error + unit) \<times> host" where
  "check_call h argv =
     (let status = exit_status h (length (executed h));
          h' = h\<lparr>log := log h @ [Exec argv]\<rparr>
      in if status = 0 then (Inr (), h') else (Inl (CalledProcessError status argv), h'))"

text \<open>
  \<open>attach\<close>: \<open>realpath\<close> is the host's resolution of the image's file name; the device
  node is one of the available ones.
\<close>

definition attach :: "(string \<Rightarrow> string) \<Rightarrow> host \<Rightarrow> string \<Rightarrow> ((error + string) \<times> host) set" where
  "attach realpath h filename =
     (let source = realpath filename
      in (\<lambda>(r, h').
            case r of
              Inl e \<Rightarrow> (Inl e, h')
            | Inr device \<Rightarrow>
                (let target = path_join ''/dev'' device
                 in case check_call h' [''qemu-nbd'', ''-n'', ''-c'', target, source] of
                      (Inl e, h'') \<Rightarrow> (Inl e, h'')
                    | (Inr _, h'') \<Rightarrow> (Inr target, h'')))
         ` available_device_node h)"

definition detach :: "host \<Rightarrow> string \<Rightarrow> (error + unit) \<times> host" where
  "detach h device = check_call h [''qemu-nbd'', ''-d'', device]"

definition mkdtemp :: "host \<Rightarrow> string \<Rightarrow> string \<times> host" where
  "mkdtemp h suffix =
     (let path = temp_name h (length (log h)) @ suffix
      in (path, h\<lparr>log := log h @ [Mkdtemp path]\<rparr>))"

definition mount :: "host \<Rightarrow> string \<Rightarrow> (error + string) \<times> host" where
  "mount h device =
     (let (path, h') = mkdtemp h ''.mount''
      in case check_call h' [''mount'', ''-o'', ''ro,force'', device, path] of
           (Inl e, h'') \<Rightarrow> (Inl e, h'')
         | (Inr _, h'') \<Rightarrow> (Inr path, h''))"

text \<open>\<open>unmount\<close>: the \<open>umount\<close> command, then \<open>os.rmdir\<close>, which raises \<open>OSError\<close> when it fails.\<close>

definition unmount :: "host \<Rightarrow> string \<Rightarrow> (error + unit) \<times> host" where
  "unmount h path =
     (case check_call h [''umount'', path] of
        (Inl e, h') \<Rightarrow> (Inl e, h')
      | (Inr _, h') \<Rightarrow>
          (if rmdir_ok h' then (Inr (), h'\<lparr>log := log h' @ [Rmdir path]\<rparr>)
           else (Inl OSError, h')))"

text \<open>\<open>partition\<close>: \<open>number\<close> is the text of the partition number.\<close>

definition partition_node :: "string \<Rightarrow> string \<Rightarrow> string" where
  "partition_node device number = device @ ''p'' @ number"

text \<open>
  \<open>wait_for_partition\<close> polls until the partition is listed. The loop has no bound of
  its own: the model takes the number of polls it may make and returns \<open>None\<close> when
  the partition is still missing after that many.
\<close>

fun wait_for_partition :: "nat \<Rightarrow> host \<Rightarrow> string \<Rightarrow> host option" where
  "wait_for_partition 0 h device = None"
| "wait_for_partition (Suc fuel) h device =
     (let node = basename device; (attached, h') = attached_partitions h
      in if node \<in> attached then Some h' else wait_for_partition fuel h' device)"

section \<open>pypette.technique.behaviour.vector\<close>

text \<open>A value used as a file name: the library calls raise on anything but a string.\<close>

fun as_path :: "pyval \<Rightarrow> error + string" where
  "as_path (PStr s) = Inr s"
| "as_path _ = Inl TypeError"

text \<open>\<open>shutil.copy\<close>: succeeds or raises \<open>IOError\<close>, as the host decides.\<close>

definition shutil_copy :: "host \<Rightarrow> string \<Rightarrow> string \<Rightarrow> (error + unit) \<times> host" where
  "shutil_copy h src dst =
     (if copy_ok h then (Inr (), h\<lparr>log := log h @ [Copy src dst]\<rparr>) else (Inl IOError, h))"

text \<open>
  \<open>FixedDriveAcquisitionVector.transfer_acquired_image\<close>, after \<open>volume.attach\<close> has
  returned \<open>device\<close>. The statements run in the order of the source and the first
  exception ends the method. \<open>repr\<close> is the text Python gives a list or a dictionary
  when the partition parameter is one. \<open>None\<close>: \<open>wait_for_partition\<close> is still polling
  after \<open>fuel\<close> polls.
\<close>

definition transfer_attached ::
    "(pyval \<Rightarrow> string) \<Rightarrow> nat \<Rightarrow> component \<Rightarrow> host \<Rightarrow> string \<Rightarrow> ((error + unit) \<times> host) option" where
  "transfer_attached repr fuel self h device =
     (case parameter_get self ''technique.vector.partition'' of
        Inl e \<Rightarrow> Some (Inl e, h)
      | Inr number \<Rightarrow>
     (case format_value repr number of
        Inl e \<Rightarrow> Some (Inl e, h)
      | Inr number_text \<Rightarrow>
     (let partition_device = partition_node device number_text in
      case wait_for_partition fuel h partition_device of
        None \<Rightarrow> None
      | Some h1 \<Rightarrow>
     (case mount h1 partition_device of
        (Inl e, h2) \<Rightarrow> Some (Inl e, h2)
      | (Inr path, h2) \<Rightarrow>
     (case parameter_get self ''technique.vector.image'' of
        Inl e \<Rightarrow> Some (Inl e, h2)
      | Inr vector_image \<Rightarrow>
     (case as_path vector_image of
        Inl e \<Rightarrow> Some (Inl e, h2)
      | Inr image_name \<Rightarrow>
     (let image_filename = path_join path image_name in
      case slot_get self ''memory.acquired'' of
        Inl e \<Rightarrow> Some (Inl e, h2)
      | Inr acquired \<Rightarrow>
     (case as_path acquired of
        Inl e \<Rightarrow> Some (Inl e, h2)
      | Inr image_acquired \<Rightarrow>
     (case shutil_copy h2 image_filename image_acquired of
        (Inl e, h3) \<Rightarrow> Some (Inl e, h3)
      | (Inr _, h3) \<Rightarrow>
     (case unmount h3 path of
        (Inl e, h4) \<Rightarrow> Some (Inl e, h4)
      | (Inr _, h4) \<Rightarrow> Some (detach h4 device)))))))))))"

definition transfer_acquired_image ::
    "(string \<Rightarrow> string) \<Rightarrow> (pyval \<Rightarrow> string) \<Rightarrow> nat \<Rightarrow> component \<Rightarrow> host \<Rightarrow>
     ((error + unit) \<times> host) option set" where
  "transfer_acquired_image realpath repr fuel self h =
     (case parameter_get self ''technique.vector.filename'' of
        Inl e \<Rightarrow> {Some (Inl e, h)}
      | Inr filename \<Rightarrow>
     (case as_path filename of
        Inl e \<Rightarrow> {Some (Inl e, h)}
      | Inr name \<Rightarrow>
          (\<lambda>(r, h').
             case r of
               Inl e \<Rightarrow> Some (Inl e, h')
             | Inr device \<Rightarrow> transfer_attached repr fuel self h' device)
          ` attach realpath h name))"

text \<open>
  A host with two block device nodes, \<open>nbd0\<close> already attached, on which every
  external command succeeds.
\<close>

definition busy_host :: host where
  "busy_host =
     \<lparr>dev_entries = [''nbd0'', ''nbd1'', ''null'', ''sda''],
      proc_partitions = (\<lambda>k. ''  43  0  1024 nbd0''),
      reads = 0,
      exit_status = (\<lambda>k. 0),
      temp_name = (\<lambda>k. ''/tmp/tmpA''),
      copy_ok = True,
      rmdir_ok = True,
      log = []\<rparr>"

text \<open>
  A host with one free block device node, whose partition shows up once the image is
  attached, and on which the second command run (the \<open>mount\<close>) exits with status 32.
\<close>

definition mount_failing_host :: host where
  "mount_failing_host =
     \<lparr>dev_entries = [''nbd0''],
      proc_partitions = (\<lambda>k. if k = 0 then [] else ''  43  0  1024 nbd0  43  1  1000 nbd0p1''),
      reads = 0,
      exit_status = (\<lambda>k. if k = 1 then 32 else 0),
      temp_name = (\<lambda>k. ''/tmp/tmpA''),
      copy_ok = True,
      rmdir_ok = True,
      log = []\<rparr>"

definition FixedDriveAcquisitionVector :: py_class where
  "FixedDriveAcquisitionVector = Class ''FixedDriveAcquisitionVector'' [Behaviour_class]
     [(''vector_filename'', Parameter ''technique.vector.filename''),
      (''vector_partition'', Parameter ''technique.vector.partition''),
      (''vector_tag'', Parameter ''technique.vector.tag''),
      (''vector_image'', Parameter ''technique.vector.image''),
      (''image_acquired'', Slot ''memory.acquired''),
      (''allocate_behaviour'', Method Concrete),
      (''attach_vector'', Method Concrete),
      (''detach_vector'', Method Concrete),
      (''transfer_acquired_image'', Method Concrete),
      (''release_behaviour'', Method Concrete)]"

text \<open>An instance with its vector parameters set and its \<open>memory.acquired\<close> slot allocated.\<close>

definition fixed_drive_vector :: component where
  "fixed_drive_vector =
     \<lparr>klass = FixedDriveAcquisitionVector,
      parameters = PDict
        [(''technique.vector.filename'', PStr ''/srv/vector.img''),
         (''technique.vector.partition'', PNum 1),
         (''technique.vector.tag'', PStr ''VECTOR''),
         (''technique.vector.image'', PStr ''memory.dd'')],
      output_dict = Some (PDict [(''memory.acquired'', PStr ''/tmp/tmpB.memory'')]),
      attributes = Map.empty\<rparr>"

section \<open>pypette.agent\<close>

text \<open>
  The console's socket: the deliveries still to arrive from the guest agent, in order,
  whether the agent has closed the connection after them, whether sending succeeds, and
  the bytes sent so far. The console keeps its own \<open>buffer\<close> of bytes received and not
  yet consumed.
\<close>

record console =
  buffer :: string
  incoming :: "string list"
  peer_closed :: bool
  send_ok :: bool
  sent :: string

definition newline :: char where
  "newline = CHR 0x0A"

text \<open>
  \<open>socket.recv(n)\<close>: up to \<open>n\<close> bytes of the first pending delivery; \<open>None\<close> when nothing
  is pending.
\<close>

fun recv :: "nat \<Rightarrow> string list \<Rightarrow> (string \<times> string list) option" where
  "recv n [] = None"
| "recv n (d # ds) = (if length d \<le> n then Some (d, ds) else Some (take n d, drop n d # ds))"

text \<open>
  The loop \<open>while not "\n" in self.buffer: self.buffer += self.socket.recv(1024)\<close>, run
  while deliveries last: the buffer, the deliveries left, and whether the buffer now
  holds a newline.
\<close>

function fill_buffer :: "string \<Rightarrow> string list \<Rightarrow> string \<times> string list \<times> bool" where
  "fill_buffer buf ds =
     (if newline \<in> set buf then (buf, ds, True)
      else case recv 1024 ds of
             None \<Rightarrow> (buf, ds, False)
           | Some (chunk, ds') \<Rightarrow> fill_buffer (buf @ chunk) ds')"
  by pat_completeness auto
termination
proof (relation "measure (\<lambda>(buf, ds). size_list length ds)")
  show "wf (measure (\<lambda>(buf, ds). size_list length ds))" by simp
next
  fix buf :: string and ds x2 :: "string list" and chunk :: string and ds' :: "string list"
  fix x :: "string \<times> string list"
  assume "recv 1024 ds = Some x" and "(chunk, ds') = x"
  then have "recv 1024 ds = Some (chunk, ds')" by simp
  then have "size_list length ds' < size_list length ds"
    by (cases ds) (auto split: if_splits)
  then show "((buf @ chunk, ds'), (buf, ds)) \<in> measure (\<lambda>(buf, ds). size_list length ds)"
    by simp
qed

text \<open>\<open>line, self.buffer = self.buffer.split("\n", 1)\<close> on a buffer that holds a newline.\<close>

definition split_line :: "string \<Rightarrow> string \<times> string" where
  "split_line buf = (takeWhile (\<lambda>c. c \<noteq> newline) buf, drop 1 (dropWhile (\<lambda>c. c \<noteq> newline) buf))"

text \<open>The messages \<open>receive\<close> returns.\<close>

datatype response = Reply pyval pyval | Error pyval pyval

text \<open>
  The part of \<open>receive\<close> that interprets the decoded line, before the \<open>except\<close> clauses.
\<close>

definition interpret_message :: "pyval \<Rightarrow> error + response" where
  "interpret_message message =
     (case py_contains ''reply'' message of
        Inl e \<Rightarrow> Inl e
      | Inr True \<Rightarrow>
          (case getitem2 message ''reply'' ''command'' of
             Inl e \<Rightarrow> Inl e
           | Inr command \<Rightarrow>
          (case getitem2 message ''reply'' ''parameters'' of
             Inl e \<Rightarrow> Inl e
           | Inr params \<Rightarrow> Inr (Reply command params)))
      | Inr False \<Rightarrow>
     (case py_contains ''error'' message of
        Inl e \<Rightarrow> Inl e
      | Inr True \<Rightarrow>
          (case getitem2 message ''error'' ''source'' of
             Inl e \<Rightarrow> Inl e
           | Inr source \<Rightarrow>
          (case getitem2 message ''error'' ''message'' of
             Inl e \<Rightarrow> Inl e
           | Inr description \<Rightarrow> Inr (Error source description)))
      | Inr False \<Rightarrow> Inl (RuntimeError ''Console received unexpected message'')))"

text \<open>
  The \<open>except TypeError\<close>, \<open>except ValueError\<close> and \<open>except KeyError\<close> clauses of \<open>receive\<close>;
  any other exception passes through.
\<close>

fun translate :: "error \<Rightarrow> error" where
  "translate TypeError = RuntimeError ''Console received malformed message''"
| "translate ValueError = RuntimeError ''Console received malformed message''"
| "translate KeyError = RuntimeError ''Console received malformed message''"
| "translate e = e"

text \<open>
  \<open>Console.receive\<close>. \<open>loads\<close> is \<open>json.loads\<close>, with \<open>None\<close> for its \<open>ValueError\<close>;
  \<open>decode_line\<close> is what the method does with the line it has split off. When
  the deliveries run out before a newline has arrived and the connection is open, the
  call raises \<open>socket.timeout\<close> if a timeout is set, or \<open>socket.error\<close> if the timeout is
  zero and the socket so does not block. Otherwise it never returns (\<open>None\<close>): it blocks
  for ever without a timeout, and on a closed connection \<open>recv\<close> keeps returning the
  empty string.
\<close>

definition decode_line :: "(string \<Rightarrow> pyval option) \<Rightarrow> string \<Rightarrow> error + response" where
  "decode_line loads line =
     (case loads line of
        None \<Rightarrow> Inl (translate ValueError)
      | Some message \<Rightarrow>
          (case interpret_message message of
             Inl e \<Rightarrow> Inl (translate e)
           | Inr r \<Rightarrow> Inr r))"

definition receive ::
    "(string \<Rightarrow> pyval option) \<Rightarrow> console \<Rightarrow> nat option \<Rightarrow> ((error + response) \<times> console) option" where
  "receive loads c timeout =
     (case fill_buffer (buffer c) (incoming c) of
        (buf, ds, False) \<Rightarrow>
          (if peer_closed c \<or> timeout = None then None
           else Some (Inl (if timeout = Some 0 then SocketError else SocketTimeout),
                      c\<lparr>buffer := buf, incoming := ds\<rparr>))
      | (buf, ds, True) \<Rightarrow>
          (let (line, rest) = split_line buf
           in Some (decode_line loads line, c\<lparr>buffer := rest, incoming := ds\<rparr>)))"

text \<open>
  \<open>Console.request\<close>. \<open>dumps\<close> is \<open>json.dumps\<close>. A send that does not succeed raises
  \<open>socket.timeout\<close>.
\<close>

definition request :: "(pyval \<Rightarrow> string) \<Rightarrow> console \<Rightarrow> string \<Rightarrow> pyval \<Rightarrow> (error + unit) \<times> console" where
  "request dumps c command params =
     (let message = dumps (PDict [(''request'', PDict [(''command'', PStr command), (''parameters'', params)])])
      in if send_ok c then (Inr (), c\<lparr>sent := sent c @ message @ [newline]\<rparr>)
         else (Inl SocketTimeout, c))"

text \<open>
  \<open>Console.call\<close>. The text of the guest agent error is formatted from the source and then
  the message of the \<open>Error\<close>, either of which can raise in the formatting.
\<close>

definition call ::
    "(pyval \<Rightarrow> string) \<Rightarrow> (string \<Rightarrow> pyval option) \<Rightarrow> (pyval \<Rightarrow> string) \<Rightarrow>
     console \<Rightarrow> string \<Rightarrow> pyval \<Rightarrow> nat option \<Rightarrow> ((error + pyval) \<times> console) option" where
  "call dumps loads repr c command params timeout =
     (case request dumps c command params of
        (Inl e, c1) \<Rightarrow> Some (Inl e, c1)
      | (Inr _, c1) \<Rightarrow>
     (case receive loads c1 timeout of
        None \<Rightarrow> None
      | Some (Inl e, c2) \<Rightarrow> Some (Inl e, c2)
      | Some (Inr (Reply command' params'), c2) \<Rightarrow> Some (Inr params', c2)
      | Some (Inr (Error source message), c2) \<Rightarrow>
          (case format_value repr source of
             Inl e \<Rightarrow> Some (Inl e, c2)
           | Inr source_text \<Rightarrow>
          (case format_value repr message of
             Inl e \<Rightarrow> Some (Inl e, c2)
           | Inr message_text \<Rightarrow>
               Some (Inl (RuntimeError (''Guest agent error in '' @ source_text @ '': '' @ message_text)),
                     c2)))))"

text \<open>
  The wire lines of the protocol examples and what \<open>json.loads\<close> makes of them; every
  other line counts as malformed here. \<open>wire_dumps\<close> is \<open>json.dumps\<close> on the status
  request.
\<close>

definition status_reply_line :: string where
  \<open>status_reply_line = ''{"reply":{"command":"status","parameters":{"cpu":1}}}''\<close>

definition empty_reply_line :: string where
  \<open>empty_reply_line = ''{"reply":{"command":"status","parameters":{}}}''\<close>

definition error_line :: string where
  \<open>error_line = ''{"error":{"source":"x","message":"y"}}''\<close>

definition colon_in_source_line :: string where
  \<open>colon_in_source_line = ''{"error":{"source":"a: b","message":"c"}}''\<close>

definition colon_in_message_line :: string where
  \<open>colon_in_message_line = ''{"error":{"source":"a","message":"b: c"}}''\<close>

definition wire_loads :: "string \<Rightarrow> pyval option" where
  "wire_loads line =
     (if line = status_reply_line
      then Some (PDict [(''reply'', PDict [(''command'', PStr ''status''),
                                           (''parameters'', PDict [(''cpu'', PNum 1)])])])
      else if line = empty_reply_line
      then Some (PDict [(''reply'', PDict [(''command'', PStr ''status''), (''parameters'', PDict [])])])
      else if line = error_line
      then Some (PDict [(''error'', PDict [(''source'', PStr ''x''), (''message'', PStr ''y'')])])
      else if line = colon_in_source_line
      then Some (PDict [(''error'', PDict [(''source'', PStr ''a: b''), (''message'', PStr ''c'')])])
      else if line = colon_in_message_line
      then Some (PDict [(''error'', PDict [(''source'', PStr ''a''), (''message'', PStr ''b: c'')])])
      else None)"


text \<open>A connected console with an empty buffer and the given deliveries to come.\<close>

definition console_with :: "string list \<Rightarrow> console" where
  "console_with ds = \<lparr>buffer = [], incoming = ds, peer_closed = False, send_ok = True, sent = []\<rparr>"

section \<open>pypette.technique\<close>

subsection \<open>The behaviour classes\<close>

definition ExecuteInterventionBehaviour :: py_class where
  "ExecuteInterventionBehaviour = Class ''ExecuteInterventionBehaviour'' [Behaviour_class]
     [(''invocation_command'', Parameter ''technique.invocation.command''),
      (''invocation_shell'', Parameter ''technique.invocation.shell''),
      (''invocation_cwd'', Parameter ''technique.invocation.cwd''),
      (''standard_output'', Slot ''acquisition.standard-output''),
      (''standard_error'', Slot ''acquisition.standard-error''),
      (''return_code'', Slot ''acquisition.return-code''),
      (''acquire'', Method Concrete)]"

definition MonitorInterventionBehaviour :: py_class where
  "MonitorInterventionBehaviour = Class ''MonitorInterventionBehaviour'' [Behaviour_class]
     [(''invocation_command'', Parameter ''technique.invocation.command''),
      (''invocation_interval'', Parameter ''technique.invocation.interval''),
      (''invocation_cwd'', Parameter ''technique.invocation.cwd''),
      (''samples'', Slot ''acquisition.samples''),
      (''standard_output'', Slot ''acquisition.standard-output''),
      (''standard_error'', Slot ''acquisition.standard-error''),
      (''return_code'', Slot ''acquisition.return-code''),
      (''acquire'', Method Concrete)]"

definition OpticalAcquisitionToolkit :: py_class where
  "OpticalAcquisitionToolkit = Class ''OpticalAcquisitionToolkit'' [Behaviour_class]
     [(''toolkit_image'', Parameter ''technique.toolkit.image''),
      (''toolkit_device'', Parameter ''technique.toolkit.device''),
      (''toolkit_tag'', Parameter ''technique.toolkit.tag''),
      (''attach_toolkit'', Method Concrete),
      (''detach_toolkit'', Method Concrete)]"

definition FixedDelayBehaviour :: py_class where
  "FixedDelayBehaviour = Class ''FixedDelayBehaviour'' [Behaviour_class]
     [(''duration'', Parameter ''technique.duration''),
      (''idle'', Method Concrete)]"

definition RandomDelayBehaviour :: py_class where
  "RandomDelayBehaviour = Class ''RandomDelayBehaviour'' [Behaviour_class]
     [(''mean'', Parameter ''technique.duration.mean''),
      (''stdev'', Parameter ''technique.duration.stdev''),
      (''idle'', Method Concrete)]"

subsection \<open>pypette.technique.acquisition\<close>

definition TOOLKIT_BEHAVIOUR_KEY :: string where
  "TOOLKIT_BEHAVIOUR_KEY = ''technique.behaviour.toolkit''"

definition VECTOR_BEHAVIOUR_KEY :: string where
  "VECTOR_BEHAVIOUR_KEY = ''technique.behaviour.vector''"

definition INTERVENTION_BEHAVIOUR_KEY :: string where
  "INTERVENTION_BEHAVIOUR_KEY = ''technique.behaviour.intervention''"

definition AcquisitionTechnique :: py_class where
  "AcquisitionTechnique = Class ''AcquisitionTechnique'' [Technique_class]
     [(''domain_host'', Parameter ''technique.domain.host''),
      (''domain_name'', Parameter ''technique.domain.name''),
      (''domain_snapshot'', Parameter ''technique.domain.snapshot''),
      (''domain_agent'', Parameter ''technique.domain.agent''),
      (''image_final'', Slot ''memory.final''),
      (''agent_initial'', Slot ''agent.initial''),
      (''agent_final'', Slot ''agent.final''),
      (''sample_start'', Slot ''time.sample.start''),
      (''sample_finish'', Slot ''time.sample.finish''),
      (''acquisition_start'', Slot ''time.acquisition.start''),
      (''acquisition_finish'', Slot ''time.acquisition.finish''),
      (''allocate'', Method Concrete),
      (''sample'', Method Concrete),
      (''attach_toolkit'', Method Abstract),
      (''detach_toolkit'', Method Abstract),
      (''attach_vector'', Method Abstract),
      (''acquire'', Method Pass),
      (''detach_vector'', Method Abstract),
      (''transfer_acquired_image'', Method Abstract),
      (''release'', Method Concrete)]"

definition TOOLKIT_BEHAVIOURS :: "(string \<times> py_class) list" where
  "TOOLKIT_BEHAVIOURS = [(''optical'', OpticalAcquisitionToolkit)]"

definition VECTOR_BEHAVIOURS :: "(string \<times> py_class) list" where
  "VECTOR_BEHAVIOURS = [(''fixed-drive'', FixedDriveAcquisitionVector)]"

definition INTERVENTION_BEHAVIOURS :: "(string \<times> py_class) list" where
  "INTERVENTION_BEHAVIOURS =
     [(''execute'', ExecuteInterventionBehaviour), (''monitor'', MonitorInterventionBehaviour)]"

text \<open>\<open>TABLE[parameters[KEY]]\<close>.\<close>

definition select_behaviour :: "(string \<times> py_class) list \<Rightarrow> pyval \<Rightarrow> string \<Rightarrow> error + py_class" where
  "select_behaviour table params key =
     (case getitem params key of Inl e \<Rightarrow> Inl e | Inr name \<Rightarrow> table_lookup table name)"

text \<open>The \<open>except KeyError\<close> clause of the factories; any other exception passes through.\<close>

fun composition_error :: "error \<Rightarrow> error" where
  "composition_error KeyError = RuntimeError ''Requested behaviour could not be composed''"
| "composition_error e = e"

text \<open>
  \<open>acquisition_technique_factory\<close>. \<open>klass(parameters)\<close> runs \<open>Technique.__init__\<close>, the
  one \<open>__init__\<close> among the classes composed.
\<close>

definition acquisition_technique_factory :: "pyval \<Rightarrow> error + component" where
  "acquisition_technique_factory params =
     (case select_behaviour TOOLKIT_BEHAVIOURS params TOOLKIT_BEHAVIOUR_KEY of
        Inl e \<Rightarrow> Inl (composition_error e)
      | Inr tkb \<Rightarrow>
     (case select_behaviour VECTOR_BEHAVIOURS params VECTOR_BEHAVIOUR_KEY of
        Inl e \<Rightarrow> Inl (composition_error e)
      | Inr vcb \<Rightarrow>
     (case select_behaviour INTERVENTION_BEHAVIOURS params INTERVENTION_BEHAVIOUR_KEY of
        Inl e \<Rightarrow> Inl (composition_error e)
      | Inr ivb \<Rightarrow>
     (let inheritance = [ivb, tkb, vcb, AcquisitionTechnique]
      in case py_type ''DynamicAcquisitionTechnique'' inheritance [] of
           Inl e \<Rightarrow> Inl e
         | Inr cls \<Rightarrow> Inr (Technique_init cls params)))))"

subsection \<open>pypette.technique.control\<close>

definition DELAY_BEHAVIOUR_KEY :: string where
  "DELAY_BEHAVIOUR_KEY = ''technique.behaviour.delay''"

definition ControlTechnique :: py_class where
  "ControlTechnique = Class ''ControlTechnique'' [Technique_class]
     [(''domain_host'', Parameter ''technique.domain.host''),
      (''domain_name'', Parameter ''technique.domain.name''),
      (''domain_snapshot'', Parameter ''technique.domain.snapshot''),
      (''image'', Slot ''memory.image''),
      (''allocate'', Method Concrete),
      (''sample'', Method Concrete),
      (''idle'', Method Abstract),
      (''release'', Method Concrete)]"

definition DELAY_BEHAVIOURS :: "(string \<times> py_class) list" where
  "DELAY_BEHAVIOURS = [(''fixed'', FixedDelayBehaviour), (''random'', RandomDelayBehaviour)]"

definition control_technique_factory :: "pyval \<Rightarrow> error + component" where
  "control_technique_factory params =
     (case select_behaviour DELAY_BEHAVIOURS params DELAY_BEHAVIOUR_KEY of
        Inl e \<Rightarrow> Inl (composition_error e)
      | Inr db \<Rightarrow>
     (let inheritance = [db, ControlTechnique]
      in case py_type ''DynamicControlTechnique'' inheritance [] of
           Inl e \<Rightarrow> Inl e
         | Inr cls \<Rightarrow> Inr (Technique_init cls params)))"

subsection \<open>Hooks\<close>



text \<open>
  Calling \<open>self.hook\<close> on an instance: the class that serves the call, and the body run.
  A hook is resolved by a behaviour when the class that serves it is not the base
  technique and its body is a real one.
\<close>

definition served_by :: "component \<Rightarrow> string \<Rightarrow> (py_class \<times> member) option" where
  "served_by self hook = class_lookup (klass self) hook"


text \<open>The parameters of an acquisition with the execute intervention, and of a control with a fixed delay.\<close>

definition execute_parameters :: pyval where
  "execute_parameters = PDict
     [(''technique.behaviour.toolkit'', PStr ''optical''),
      (''technique.behaviour.vector'', PStr ''fixed-drive''),
      (''technique.behaviour.intervention'', PStr ''execute''),
      (''technique.domain.name'', PStr ''guest'')]"

definition fixed_delay_parameters :: pyval where
  "fixed_delay_parameters = PDict
     [(''technique.behaviour.delay'', PStr ''fixed''), (''technique.duration'', PNum 60)]"


text \<open>The class and the instance that the execute parameters compose.\<close>

definition execute_class :: py_class where
  "execute_class = Class ''DynamicAcquisitionTechnique''
     [ExecuteInterventionBehaviour, OpticalAcquisitionToolkit, FixedDriveAcquisitionVector,
      AcquisitionTechnique] []"

definition execute_technique :: component where
  "execute_technique = Technique_init execute_class execute_parameters"

section \<open>pypette.experiment\<close>

text \<open>An execution identity is a UUID: 128 bits, compared as the integer they spell.\<close>

type_synonym uuid = "128 word"

text \<open>
  An experiment definition: the number of executions, and the name and parameters of
  the technique and of each analyst.
\<close>

record experiment_definition =
  executions :: int
  technique :: "string \<times> pyval"
  analysts :: "(string \<times> pyval) list"

text \<open>
  What the conductor cannot decide: the value of each successive \<open>uuid.uuid4()\<close>, the
  two registries, and for every call it makes on a technique or an analyst whether the
  call returns (\<open>None\<close>) or raises. Techniques are numbered by the attempt that
  constructs them, analysts by their place in the definition.
\<close>

record world =
  uuid4 :: "nat \<Rightarrow> uuid"
  techniques :: "string \<rightharpoonup> (pyval \<Rightarrow> error + component)"
  analyst_registry :: "string \<rightharpoonup> (pyval \<Rightarrow> error + component)"
  allocate_raises :: "nat \<Rightarrow> error option"
  sample_raises :: "nat \<Rightarrow> error option"
  release_raises :: "nat \<Rightarrow> error option"
  analyse_raises :: "nat \<Rightarrow> nat \<Rightarrow> error option"
  discard_raises :: "nat \<Rightarrow> nat \<Rightarrow> error option"
  collate_raises :: "nat \<Rightarrow> error option"

text \<open>
  The calls the conductor makes, in order. \<open>Allocate k\<close>, \<open>Sample k\<close> and \<open>Release k\<close> are
  calls on the technique of attempt \<open>k\<close>; \<open>Analyse a k u\<close> and \<open>Discard a k u\<close> are calls on
  analyst \<open>a\<close> during attempt \<open>k\<close> with the identity \<open>u\<close>.
\<close>

datatype event =
    Mint uuid
  | Construct nat
  | Allocate nat
  | Sample nat
  | Analyse nat nat uuid
  | Logged nat
  | Discard nat nat uuid
  | Release nat
  | Collate nat

text \<open>The conductor's variables: the list \<open>identities\<close>, the number of UUIDs drawn, and the calls made.\<close>

record run =
  identities :: "uuid list"
  draws :: nat
  trace :: "event list"

text \<open>\<open>get_analysts\<close> and \<open>get_technique\<close>.\<close>

fun get_analysts_from :: "world \<Rightarrow> (string \<times> pyval) list \<Rightarrow> error + component list" where
  "get_analysts_from w [] = Inr []"
| "get_analysts_from w ((name, params) # rest) =
     (case registry_get (analyst_registry w) name of
        Inl e \<Rightarrow> Inl e
      | Inr component \<Rightarrow>
     (case component params of
        Inl e \<Rightarrow> Inl e
      | Inr inst \<Rightarrow>
     (case get_analysts_from w rest of
        Inl e \<Rightarrow> Inl e
      | Inr container \<Rightarrow> Inr (inst # container))))"

definition get_analysts :: "world \<Rightarrow> experiment_definition \<Rightarrow> error + component list" where
  "get_analysts w d = get_analysts_from w (analysts d)"

definition get_technique :: "world \<Rightarrow> experiment_definition \<Rightarrow> error + component" where
  "get_technique w d =
     (case registry_get (techniques w) (fst (technique d)) of
        Inl e \<Rightarrow> Inl e
      | Inr component \<Rightarrow> component (snd (technique d)))"

text \<open>
  \<open>for analyst in analysts: analyst.method(...)\<close> over the analysts numbered \<open>as\<close>: the
  calls made, up to and including the first that raises.
\<close>

fun call_each :: "(nat \<Rightarrow> error option) \<Rightarrow> (nat \<Rightarrow> event) \<Rightarrow> nat list \<Rightarrow> (error + unit) \<times> event list" where
  "call_each raises ev [] = (Inr (), [])"
| "call_each raises ev (a # as) =
     (case raises a of
        Some e \<Rightarrow> (Inl e, [ev a])
      | None \<Rightarrow> (let (r, evs) = call_each raises ev as in (r, ev a # evs)))"

text \<open>The \<open>try\<close> block of attempt \<open>k\<close> with identity \<open>u\<close> and \<open>n\<close> analysts.\<close>

definition try_block :: "world \<Rightarrow> nat \<Rightarrow> nat \<Rightarrow> uuid \<Rightarrow> (error + unit) \<times> event list" where
  "try_block w n k u =
     (case allocate_raises w k of
        Some e \<Rightarrow> (Inl e, [Allocate k])
      | None \<Rightarrow>
     (case sample_raises w k of
        Some e \<Rightarrow> (Inl e, [Allocate k, Sample k])
      | None \<Rightarrow>
     (let (r, evs) = call_each (\<lambda>a. analyse_raises w a k) (\<lambda>a. Analyse a k u) [0..<n]
      in (r, [Allocate k, Sample k] @ evs))))"

text \<open>
  The \<open>except\<close> block: log, discard on every analyst, append a new identity. An exception
  raised by a \<open>discard\<close> leaves the block there.
\<close>

definition except_block :: "world \<Rightarrow> nat \<Rightarrow> nat \<Rightarrow> uuid \<Rightarrow> run \<Rightarrow> (error + unit) \<times> run" where
  "except_block w n k u st =
     (let (r, evs) = call_each (\<lambda>a. discard_raises w a k) (\<lambda>a. Discard a k u) [0..<n];
          st' = st\<lparr>trace := trace st @ Logged k # evs\<rparr>
      in case r of
           Inl e \<Rightarrow> (Inl e, st')
         | Inr _ \<Rightarrow>
             (Inr (), st'\<lparr>identities := identities st' @ [uuid4 w (draws st')],
                         draws := Suc (draws st'),
                         trace := trace st' @ [Mint (uuid4 w (draws st'))]\<rparr>))"

text \<open>
  One pass of the body of \<open>for execution in identities\<close>, for the \<open>k\<close>-th element of the
  list: \<open>get_technique\<close> outside the \<open>try\<close>, then \<open>try\<close>, \<open>except\<close> and \<open>finally\<close>. An
  exception of \<open>release\<close> replaces the one in flight.
\<close>

definition execution :: "world \<Rightarrow> experiment_definition \<Rightarrow> nat \<Rightarrow> nat \<Rightarrow> run \<Rightarrow> (error + unit) \<times> run" where
  "execution w d n k st =
     (let u = identities st ! k
      in case get_technique w d of
           Inl e \<Rightarrow> (Inl e, st)
         | Inr technique_instance \<Rightarrow>
             (let (r1, evs) = try_block w n k u;
                  st1 = st\<lparr>trace := trace st @ Construct k # evs\<rparr>;
                  (r2, st2) = (case r1 of Inr _ \<Rightarrow> (Inr (), st1) | Inl e \<Rightarrow> except_block w n k u st1);
                  st3 = st2\<lparr>trace := trace st2 @ [Release k]\<rparr>
              in case release_raises w k of
                   Some e \<Rightarrow> (Inl e, st3)
                 | None \<Rightarrow> (r2, st3)))"

text \<open>
  The \<open>for\<close> loop from the \<open>k\<close>-th element on. The list grows while it is iterated, so the
  loop need not end: it is run for at most \<open>fuel\<close> passes, and \<open>None\<close> as result says that
  the loop is still running then. \<open>Some (Inl e)\<close>: the exception \<open>e\<close> left the loop.
\<close>

fun conduct_loop ::
    "nat \<Rightarrow> world \<Rightarrow> experiment_definition \<Rightarrow> nat \<Rightarrow> nat \<Rightarrow> run \<Rightarrow> (error + unit) option \<times> run" where
  "conduct_loop fuel w d n k st =
     (if length (identities st) \<le> k then (Some (Inr ()), st)
      else case fuel of
             0 \<Rightarrow> (None, st)
           | Suc fuel' \<Rightarrow>
               (case execution w d n k st of
                  (Inl e, st') \<Rightarrow> (Some (Inl e), st')
                | (Inr _, st') \<Rightarrow> conduct_loop fuel' w d n (Suc k) st'))"

text \<open>\<open>identities = [uuid.uuid4() for i in range(definition.executions)]\<close>.\<close>

definition seed :: "world \<Rightarrow> experiment_definition \<Rightarrow> run" where
  "seed w d =
     (let us = map (uuid4 w) [0..<nat (executions d)]
      in \<lparr>identities = us, draws = length us, trace = map Mint us\<rparr>)"

text \<open>\<open>conduct\<close>.\<close>

definition conduct :: "nat \<Rightarrow> world \<Rightarrow> experiment_definition \<Rightarrow> (error + unit) option \<times> run" where
  "conduct fuel w d =
     (let st0 = seed w d
      in case get_analysts w d of
           Inl e \<Rightarrow> (Some (Inl e), st0)
         | Inr container \<Rightarrow>
             (let n = length container
              in case conduct_loop fuel w d n 0 st0 of
                   (Some (Inr _), st) \<Rightarrow>
                     (let (r, evs) = call_each (collate_raises w) Collate [0..<n]
                      in (Some r, st\<lparr>trace := trace st @ evs\<rparr>))
                 | (r, st) \<Rightarrow> (r, st)))"

text \<open>
  Whether the \<open>try\<close> block of attempt \<open>k\<close> raises, and whether it calls \<open>analyse\<close> on
  analyst \<open>a\<close>, when the attempt runs with the \<open>k\<close>-th UUID drawn.
\<close>

definition fails :: "world \<Rightarrow> nat \<Rightarrow> nat \<Rightarrow> bool" where
  "fails w n k = isl (fst (try_block w n k (uuid4 w k)))"

definition analysed :: "world \<Rightarrow> nat \<Rightarrow> nat \<Rightarrow> nat \<Rightarrow> bool" where
  "analysed w n a k = (Analyse a k (uuid4 w k) \<in> set (snd (try_block w n k (uuid4 w k))))"

text \<open>The number of calls of \<open>analyse\<close> on analyst \<open>a\<close> in a trace.\<close>

fun is_analyse :: "nat \<Rightarrow> event \<Rightarrow> bool" where
  "is_analyse a (Analyse a' k u) = (a' = a)"
| "is_analyse a _ = False"

definition analyse_calls :: "nat \<Rightarrow> event list \<Rightarrow> nat" where
  "analyse_calls a tr = length (filter (is_analyse a) tr)"

subsection \<open>Notions for the proofs\<close>

text \<open>
  \<open>lifecycle_count st j c\<close>: the technique of attempt \<open>j\<close> has been constructed, allocated
  and released \<open>c\<close> times each. \<open>drawn w st\<close>: the identities are the UUIDs drawn, in order,
  and every \<open>analyse\<close> and \<open>discard\<close> of attempt \<open>k\<close> was given the \<open>k\<close>-th of them.
  \<open>attempt_trace w n k m\<close>: the calls of attempt \<open>k\<close> when the technique can be constructed
  and neither \<open>discard\<close> nor \<open>release\<close> raises, \<open>m\<close> UUIDs having been drawn before it.
\<close>

definition lifecycle_count :: "run \<Rightarrow> nat \<Rightarrow> nat \<Rightarrow> bool" where
  "lifecycle_count st j c \<longleftrightarrow>
     count_list (trace st) (Construct j) = c \<and> count_list (trace st) (Allocate j) = c
     \<and> count_list (trace st) (Release j) = c"

definition drawn :: "world \<Rightarrow> run \<Rightarrow> bool" where
  "drawn w st \<longleftrightarrow>
     identities st = map (uuid4 w) [0..<length (identities st)]
     \<and> draws st = length (identities st)
     \<and> (\<forall>a k u. Analyse a k u \<in> set (trace st) \<or> Discard a k u \<in> set (trace st)
            \<longrightarrow> k < length (identities st) \<and> u = uuid4 w k)"

definition attempt_trace :: "world \<Rightarrow> nat \<Rightarrow> nat \<Rightarrow> nat \<Rightarrow> event list" where
  "attempt_trace w n k m =
     Construct k # snd (try_block w n k (uuid4 w k))
     @ (if fails w n k
        then Logged k # map (\<lambda>a. Discard a k (uuid4 w k)) [0..<n] @ [Mint (uuid4 w m)]
        else [])
     @ [Release k]"

subsection \<open>pypette.analyst.metadata\<close>

definition SampleMetadataAnalyst :: py_class where
  "SampleMetadataAnalyst = Class ''SampleMetadataAnalyst'' [Analyst_class]
     [(''slots'', Parameter ''analyst.sample-metadata.slots''),
      (''output'', Parameter ''analyst.sample-metadata.output''),
      (''analyse'', Method Concrete),
      (''discard'', Method Concrete)]"

definition ExperimentMetadataAnalyst :: py_class where
  "ExperimentMetadataAnalyst = Class ''ExperimentMetadataAnalyst'' [Analyst_class]
     [(''slots'', Parameter ''analyst.experiment-metadata.slots''),
      (''output'', Parameter ''analyst.experiment-metadata.output''),
      (''__init__'', Method Concrete),
      (''analyse'', Method Concrete),
      (''collate'', Method Concrete),
      (''discard'', Method Concrete)]"

subsection \<open>Example runs\<close>

text \<open>
  The registries after the modules are loaded, as far as the examples need them, and an
  experiment of \<open>count\<close> executions of a control technique under the two metadata
  analysts.
\<close>

definition loaded_techniques :: "string \<rightharpoonup> (pyval \<Rightarrow> error + component)" where
  "loaded_techniques =
     register (register Map.empty ''acquisition'' acquisition_technique_factory)
       ''control'' control_technique_factory"

definition loaded_analysts :: "string \<rightharpoonup> (pyval \<Rightarrow> error + component)" where
  "loaded_analysts =
     register (register Map.empty ''sample-metadata'' (\<lambda>p. Inr (Analyst_init SampleMetadataAnalyst p)))
       ''experiment-metadata'' (\<lambda>p. Inr (Analyst_init ExperimentMetadataAnalyst p))"

definition control_experiment :: "int \<Rightarrow> experiment_definition" where
  "control_experiment count =
     \<lparr>executions = count,
      technique = (''control'', fixed_delay_parameters),
      analysts = [(''sample-metadata'', PDict []), (''experiment-metadata'', PDict [])]\<rparr>"

text \<open>
  Two version 4 UUIDs, the second smaller than the first, and a world in which nothing
  raises and \<open>uuid4\<close> returns the first and then UUIDs that count up from the second.
\<close>

definition first_uuid :: uuid where
  "first_uuid = 0x9f1c2e5a7b3d4c8ea1f23b4c5d6e7f80"

definition second_uuid :: uuid where
  "second_uuid = 0x1a2b3c4d5e6f4a7b8c9d0e1f2a3b4c5d"

definition is_uuid4 :: "uuid \<Rightarrow> bool" where
  "is_uuid4 u = (drop_bit 76 u AND 0xf = 4 \<and> drop_bit 62 u AND 3 = 2)"

definition quiet_world :: world where
  "quiet_world =
     \<lparr>uuid4 = (\<lambda>k. if k = 0 then first_uuid else second_uuid + of_nat (k - 1)),
      techniques = loaded_techniques,
      analyst_registry = loaded_analysts,
      allocate_raises = (\<lambda>k. None),
      sample_raises = (\<lambda>k. None),
      release_raises = (\<lambda>k. None),
      analyse_raises = (\<lambda>a k. None),
      discard_raises = (\<lambda>a k. None),
      collate_raises = (\<lambda>a. None)\<rparr>"

text \<open>
  A world in which the UUIDs drawn count up from \<open>first_uuid\<close>, and the second analyst's
  \<open>analyse\<close> raises \<open>IOError\<close> in the first attempt and nothing else raises.
\<close>

definition flaky_world :: world where
  "flaky_world =
     \<lparr>uuid4 = (\<lambda>k. first_uuid + of_nat k),
      techniques = loaded_techniques,
      analyst_registry = loaded_analysts,
      allocate_raises = (\<lambda>k. None),
      sample_raises = (\<lambda>k. None),
      release_raises = (\<lambda>k. None),
      analyse_raises = (\<lambda>a k. if a = 1 \<and> k = 0 then Some IOError else None),
      discard_raises = (\<lambda>a k. None),
      collate_raises = (\<lambda>a. None)\<rparr>"

section \<open>Properties of pypette.volume\<close>

lemma set_pop_Inr: "Inr x \<in> set_pop s \<longleftrightarrow> x \<in> s"
  by (auto simp: set_pop_def)

lemma set_pop_Inl: "Inl e \<in> set_pop s \<longleftrightarrow> s = {} \<and> e = KeyError"
  by (auto simp: set_pop_def)

lemma available_device_node_Inr:
  "(Inr d, h') \<in> available_device_node h \<longleftrightarrow>
     h' = snd (attached_device_nodes h) \<and> d \<in> device_nodes h - fst (attached_device_nodes h)"
  by (auto simp: available_device_node_def set_pop_Inr split: prod.splits)

lemma basename_no_slash: "CHR ''/'' \<notin> set (basename p)"
proof -
  have "\<forall>c \<in> set (takeWhile (\<lambda>c. c \<noteq> CHR ''/'') (rev p)). c \<noteq> CHR ''/''"
    by (metis (mono_tags, lifting) set_takeWhileD)
  then show ?thesis by (auto simp: basename_def)
qed

lemma path_join_dev: "d \<in> device_nodes h \<Longrightarrow> path_join ''/dev'' d = ''/dev/'' @ d"
proof -
  assume "d \<in> device_nodes h"
  then obtain p where "d = basename p" by (auto simp: device_nodes_def)
  then have "CHR ''/'' \<notin> set d" by (simp add: basename_no_slash)
  then have "d = [] \<or> hd d \<noteq> CHR ''/''" by (cases d) auto
  then show ?thesis by (auto simp: path_join_def)
qed

text \<open>
  C8. When some node of the pool \<open>/dev/nbd?\<close> is not in the attached set read from
  \<open>/proc/partitions\<close>, \<open>attach\<close> has an outcome, no outcome is the \<open>KeyError\<close> of an
  empty selection, and every handle it returns is \<open>/dev/d\<close> for a node \<open>d\<close> of the pool
  that is not in the attached set read at selection time; each such node is a possible
  selection.
\<close>

theorem attach_selects_unattached_device:
  assumes "device_nodes h - fst (attached_device_nodes h) \<noteq> {}"
  shows "attach realpath h filename \<noteq> {}
       \<and> (\<forall>(r, h') \<in> attach realpath h filename.
            case r of
              Inr target \<Rightarrow>
                \<exists>d. target = ''/dev/'' @ d \<and> d \<in> device_nodes h \<and> d \<notin> fst (attached_device_nodes h)
            | Inl e \<Rightarrow> e \<noteq> KeyError)
       \<and> (\<forall>d \<in> device_nodes h - fst (attached_device_nodes h).
            exit_status h (length (executed h)) = 0 \<longrightarrow>
              (\<exists>h'. (Inr (''/dev/'' @ d), h') \<in> attach realpath h filename))"
proof (intro conjI)
  let ?A = "fst (attached_device_nodes h)"
  let ?h1 = "snd (attached_device_nodes h)"
  have adn: "available_device_node h = (\<lambda>r. (r, ?h1)) ` Inr ` (device_nodes h - ?A)"
    using assms by (simp add: available_device_node_def set_pop_def case_prod_beta)
  show "attach realpath h filename \<noteq> {}"
    using assms by (simp add: attach_def adn)
  show "\<forall>(r, h') \<in> attach realpath h filename.
            case r of
              Inr target \<Rightarrow>
                \<exists>d. target = ''/dev/'' @ d \<and> d \<in> device_nodes h \<and> d \<notin> ?A
            | Inl e \<Rightarrow> e \<noteq> KeyError"
    by (auto simp: attach_def adn check_call_def Let_def path_join_dev split: sum.splits prod.splits if_splits)
  have ex: "executed ?h1 = executed h"
    by (simp add: attached_device_nodes_def read_partitions_def executed_def split: prod.splits)
  have es: "exit_status ?h1 = exit_status h"
    by (simp add: attached_device_nodes_def read_partitions_def split: prod.splits)
  show "\<forall>d \<in> device_nodes h - ?A.
            exit_status h (length (executed h)) = 0 \<longrightarrow>
              (\<exists>h'. (Inr (''/dev/'' @ d), h') \<in> attach realpath h filename)"
  proof (intro ballI impI)
    fix d assume d: "d \<in> device_nodes h - ?A" and ok: "exit_status h (length (executed h)) = 0"
    let ?argv = "[''qemu-nbd'', ''-n'', ''-c'', ''/dev/'' @ d, realpath filename]"
    have "check_call ?h1 ?argv = (Inr (), ?h1\<lparr>log := log ?h1 @ [Exec ?argv]\<rparr>)"
      using ok by (simp add: check_call_def ex es)
    moreover have "path_join ''/dev'' d = ''/dev/'' @ d" using d path_join_dev [of d h] by simp
    moreover have "(Inr d, ?h1) \<in> available_device_node h" using d by (auto simp: adn)
    ultimately have "(Inr (''/dev/'' @ d), ?h1\<lparr>log := log ?h1 @ [Exec ?argv]\<rparr>) \<in> attach realpath h filename"
      unfolding attach_def Let_def by force
    then show "\<exists>h'. (Inr (''/dev/'' @ d), h') \<in> attach realpath h filename" by blast
  qed
qed

lemma busy_host_nodes: "device_nodes busy_host = {''nbd0'', ''nbd1''}"
  by (simp add: device_nodes_def busy_host_def glob_nbd_def basename_def)

lemma busy_host_attached: "fst (attached_device_nodes busy_host) = {''nbd0''}"
  by (simp add: attached_device_nodes_def read_partitions_def busy_host_def is_digit_def)

theorem attach_selects_unattached_device_witness:
  "device_nodes busy_host - fst (attached_device_nodes busy_host) \<noteq> {}
   \<and> (\<exists>h'. (Inr ''/dev/nbd1'', h') \<in> attach id busy_host ''vector.img'')
   \<and> (\<forall>h'. (Inr ''/dev/nbd0'', h') \<notin> attach id busy_host ''vector.img'')"
proof -
  have ne: "device_nodes busy_host - fst (attached_device_nodes busy_host) \<noteq> {}"
    by (simp add: busy_host_nodes busy_host_attached)
  have ok: "exit_status busy_host (length (executed busy_host)) = 0"
    by (simp add: busy_host_def)
  note main = attach_selects_unattached_device [OF ne, of id "''vector.img''"]
  from main ok have possible: "\<exists>h'. (Inr ''/dev/nbd1'', h') \<in> attach id busy_host ''vector.img''"
    by (simp add: busy_host_nodes busy_host_attached)
  have never: "\<forall>h'. (Inr ''/dev/nbd0'', h') \<notin> attach id busy_host ''vector.img''"
  proof (intro allI notI)
    fix h' assume "(Inr ''/dev/nbd0'', h') \<in> attach id busy_host ''vector.img''"
    with main have "\<exists>d. ''/dev/nbd0'' = ''/dev/'' @ d \<and> d \<notin> fst (attached_device_nodes busy_host)"
      by fastforce
    then show False by (simp add: busy_host_attached)
  qed
  from ne possible never show ?thesis by blast
qed

text \<open>
  C3. On a host where the attach succeeds and the \<open>mount\<close> command exits with status
  32, \<open>transfer_acquired_image\<close> raises the \<open>CalledProcessError\<close> of the mount; the
  commands run are the attach and the mount, and no \<open>qemu-nbd -d\<close> is run on the
  attached device.
\<close>

theorem transfer_acquired_image_mount_failure_leaves_device_attached:
  "transfer_acquired_image id (\<lambda>v. []) 1 fixed_drive_vector mount_failing_host =
     {Some (Inl (CalledProcessError 32 [''mount'', ''-o'', ''ro,force'', ''/dev/nbd0p1'', ''/tmp/tmpA.mount'']),
        mount_failing_host
          \<lparr>reads := 2,
           log := [Exec [''qemu-nbd'', ''-n'', ''-c'', ''/dev/nbd0'', ''/srv/vector.img''],
                   Mkdtemp ''/tmp/tmpA.mount'',
                   Exec [''mount'', ''-o'', ''ro,force'', ''/dev/nbd0p1'', ''/tmp/tmpA.mount'']]\<rparr>)}"
  by (simp add: transfer_acquired_image_def transfer_attached_def fixed_drive_vector_def
      mount_failing_host_def parameter_get_def slot_get_def attach_def available_device_node_def
      attached_device_nodes_def attached_partitions_def read_partitions_def device_nodes_def
      glob_nbd_def basename_def set_pop_def path_join_def check_call_def executed_def
      partition_node_def mount_def mkdtemp_def is_digit_def Let_def)

section \<open>Properties of pypette.agent\<close>

lemma recv_concat: "recv n ds = Some (chunk, ds') \<Longrightarrow> chunk @ concat ds' = concat ds"
  by (cases ds) (auto split: if_splits)

lemma recv_None: "recv n ds = None \<longleftrightarrow> ds = []"
  by (cases ds) auto

lemma fill_buffer_stream:
  "fill_buffer buf ds = (buf', ds', ok) \<Longrightarrow>
     buf' @ concat ds' = buf @ concat ds \<and> (ok \<longleftrightarrow> newline \<in> set buf') \<and> (\<not> ok \<longrightarrow> ds' = [])"
proof (induction buf ds rule: fill_buffer.induct)
  case (1 buf ds)
  show ?case
  proof (cases "newline \<in> set buf")
    case True
    with "1.prems" show ?thesis by (simp add: fill_buffer.simps [of buf ds])
  next
    case False
    show ?thesis
    proof (cases "recv 1024 ds")
      case None
      with False "1.prems" show ?thesis
        by (auto simp: fill_buffer.simps [of buf ds] recv_None)
    next
      case (Some x)
      obtain chunk rest where x: "x = (chunk, rest)" by (cases x)
      from False Some x "1.prems" have "fill_buffer (buf @ chunk) rest = (buf', ds', ok)"
        by (simp add: fill_buffer.simps [of buf ds])
      from "1.IH" [OF False Some x [symmetric] this] recv_concat [of 1024 ds chunk rest] Some x
      show ?thesis by simp
    qed
  qed
qed

lemma split_line_stream:
  assumes "newline \<in> set buf" and "buf @ tail = line @ newline # rest" and "newline \<notin> set line"
  shows "fst (split_line buf) = line \<and> snd (split_line buf) @ tail = rest"
proof -
  have all: "\<forall>x \<in> set line. x \<noteq> newline" using assms(3) by auto
  have tw: "takeWhile (\<lambda>c. c \<noteq> newline) (line @ newline # rest) = line"
    using all by (simp add: takeWhile_tail takeWhile_eq_all_conv)
  have dw: "dropWhile (\<lambda>c. c \<noteq> newline) (line @ newline # rest) = newline # rest"
    using all by (simp add: dropWhile_append3 dropWhile_eq_Nil_conv)
  have "takeWhile (\<lambda>c. c \<noteq> newline) (buf @ tail) = takeWhile (\<lambda>c. c \<noteq> newline) buf"
    using assms(1) by (simp add: takeWhile_append1)
  moreover have "dropWhile (\<lambda>c. c \<noteq> newline) (buf @ tail) = dropWhile (\<lambda>c. c \<noteq> newline) buf @ tail"
    using assms(1) by (simp add: dropWhile_append1)
  moreover have "dropWhile (\<lambda>c. c \<noteq> newline) buf \<noteq> []"
    using assms(1) by (simp add: dropWhile_eq_Nil_conv)
  ultimately show ?thesis
    using tw dw assms(2) by (cases "dropWhile (\<lambda>c. c \<noteq> newline) buf") (auto simp: split_line_def)
qed

lemma receive_first_line:
  assumes "buffer c @ concat (incoming c) = line @ newline # rest"
    and "newline \<notin> set line"
  shows "\<exists>c'. receive loads c timeout = Some (decode_line loads line, c')
            \<and> buffer c' @ concat (incoming c') = rest
            \<and> sent c' = sent c"
proof -
  obtain buf ds ok where fb: "fill_buffer (buffer c) (incoming c) = (buf, ds, ok)"
    by (cases "fill_buffer (buffer c) (incoming c)") auto
  note st = fill_buffer_stream [OF fb]
  have stream: "buf @ concat ds = line @ newline # rest" using st assms(1) by simp
  have ok: "ok"
  proof (rule ccontr)
    assume "\<not> ok"
    with st have "ds = []" and "newline \<notin> set buf" by auto
    with stream show False by (metis append_Nil2 concat.simps(1) in_set_conv_decomp)
  qed
  with st have nl: "newline \<in> set buf" by simp
  from split_line_stream [OF nl stream assms(2)]
  show ?thesis
    using fb ok by (simp add: receive_def case_prod_beta)
qed

text \<open>
  C7. Whatever the deliveries, if the bytes buffered and still to arrive are a line, a
  newline and a rest, then \<open>receive\<close> returns the decoding of exactly that line, and the
  bytes after the newline are all still there for the next \<open>receive\<close>, in the buffer or
  yet to arrive: the outcome depends on the byte stream only, not on how the transport
  splits it into reads.
\<close>

theorem receive_independent_of_delivery:
  assumes "buffer c @ concat (incoming c) = line @ newline # rest"
    and "newline \<notin> set line"
  shows "\<exists>c'. receive loads c timeout = Some (decode_line loads line, c')
            \<and> buffer c' @ concat (incoming c') = rest
            \<and> sent c' = sent c"
  using assms by (rule receive_first_line)

lemma newline_not_in_examples:
  "newline \<notin> set status_reply_line" "newline \<notin> set empty_reply_line" "newline \<notin> set error_line"
  by (simp_all add: newline_def status_reply_line_def empty_reply_line_def error_line_def)

lemma decode_empty_reply_line:
  "decode_line wire_loads empty_reply_line = Inr (Reply (PStr ''status'') (PDict []))"
  by (simp add: decode_line_def wire_loads_def interpret_message_def getitem2_def
      status_reply_line_def empty_reply_line_def)

theorem receive_independent_of_delivery_witness:
  \<open>buffer (console_with [''{"reply":{"command":"s'', ''tatus","parameters":{}}}'' @ [newline]])
     @ concat (incoming (console_with [''{"reply":{"command":"s'', ''tatus","parameters":{}}}'' @ [newline]]))
     = empty_reply_line @ newline # []
   \<and> newline \<notin> set empty_reply_line
   \<and> (\<exists>c'. receive wire_loads
              (console_with [''{"reply":{"command":"s'', ''tatus","parameters":{}}}'' @ [newline]]) None
            = Some (Inr (Reply (PStr ''status'') (PDict [])), c')
          \<and> buffer c' @ concat (incoming c') = [])\<close>
proof -
  let ?c = \<open>console_with [''{"reply":{"command":"s'', ''tatus","parameters":{}}}'' @ [newline]]\<close>
  have stream: "buffer ?c @ concat (incoming ?c) = empty_reply_line @ newline # []"
    by (simp add: console_with_def empty_reply_line_def)
  from receive_independent_of_delivery [OF stream newline_not_in_examples(2), of wire_loads None]
  show ?thesis
    using stream newline_not_in_examples(2) by (auto simp: decode_empty_reply_line)
qed





lemma call_on_error_line:
  assumes "send_ok c"
    and "buffer c @ concat (incoming c) = line @ newline # rest"
    and "newline \<notin> set line"
    and "decode_line loads line = Inr (Error source description)"
  shows "\<exists>c'. call dumps loads repr c name params timeout =
           Some (Inl (case format_value repr source of
                        Inl e \<Rightarrow> e
                      | Inr source_text \<Rightarrow>
                          (case format_value repr description of
                             Inl e \<Rightarrow> e
                           | Inr message_text \<Rightarrow>
                               RuntimeError (''Guest agent error in '' @ source_text @ '': '' @ message_text))),
                 c')"
proof -
  let ?message = "dumps (PDict [(''request'', PDict [(''command'', PStr name), (''parameters'', params)])])"
  let ?c1 = "c\<lparr>sent := sent c @ ?message @ [newline]\<rparr>"
  have req: "request dumps c name params = (Inr (), ?c1)"
    using assms(1) by (simp add: request_def)
  have "buffer ?c1 @ concat (incoming ?c1) = line @ newline # rest"
    using assms(2) by simp
  from receive_first_line [OF this assms(3), of loads timeout]
  obtain c2 where "receive loads ?c1 timeout = Some (decode_line loads line, c2)" by blast
  with req assms(4) show ?thesis by (simp add: call_def split: sum.splits)
qed

lemma call_on_error_line_not_ascii:
  assumes "send_ok c"
    and "buffer c @ concat (incoming c) = line @ newline # rest"
    and "newline \<notin> set line"
    and "decode_line loads line = Inr (Error (PStr x) description)"
    and "\<not> is_ascii x"
  shows "\<exists>c'. call dumps loads repr c name params timeout = Some (Inl UnicodeEncodeError, c')"
  using call_on_error_line [OF assms(1-4), of dumps repr name params timeout] assms(5) by simp







section \<open>Properties of the composition of techniques\<close>

lemmas class_defs = ExecuteInterventionBehaviour_def MonitorInterventionBehaviour_def
  OpticalAcquisitionToolkit_def FixedDriveAcquisitionVector_def AcquisitionTechnique_def
  Behaviour_class_def Technique_class_def object_class_def ControlTechnique_def
  FixedDelayBehaviour_def RandomDelayBehaviour_def

lemma mro_execute:
  "mro (Class ''DynamicAcquisitionTechnique''
         [ExecuteInterventionBehaviour, OpticalAcquisitionToolkit, FixedDriveAcquisitionVector,
          AcquisitionTechnique] [])
   = Some [Class ''DynamicAcquisitionTechnique''
             [ExecuteInterventionBehaviour, OpticalAcquisitionToolkit, FixedDriveAcquisitionVector,
              AcquisitionTechnique] [],
           ExecuteInterventionBehaviour, OpticalAcquisitionToolkit, FixedDriveAcquisitionVector,
           Behaviour_class, AcquisitionTechnique, Technique_class, object_class]"
  by (simp add: class_defs c3_candidate_def)

lemma mro_monitor:
  "mro (Class ''DynamicAcquisitionTechnique''
         [MonitorInterventionBehaviour, OpticalAcquisitionToolkit, FixedDriveAcquisitionVector,
          AcquisitionTechnique] [])
   = Some [Class ''DynamicAcquisitionTechnique''
             [MonitorInterventionBehaviour, OpticalAcquisitionToolkit, FixedDriveAcquisitionVector,
              AcquisitionTechnique] [],
           MonitorInterventionBehaviour, OpticalAcquisitionToolkit, FixedDriveAcquisitionVector,
           Behaviour_class, AcquisitionTechnique, Technique_class, object_class]"
  by (simp add: class_defs c3_candidate_def)

lemma mro_fixed_delay:
  "mro (Class ''DynamicControlTechnique'' [FixedDelayBehaviour, ControlTechnique] [])
   = Some [Class ''DynamicControlTechnique'' [FixedDelayBehaviour, ControlTechnique] [],
           FixedDelayBehaviour, Behaviour_class, ControlTechnique, Technique_class, object_class]"
  by (simp add: class_defs c3_candidate_def)


lemma select_behaviour_Inr:
  "select_behaviour table params key = Inr c \<Longrightarrow> c \<in> snd ` set table"
  by (auto simp: select_behaviour_def table_lookup_def dest!: map_of_SomeD
      split: sum.splits pyval.splits option.splits if_splits) force+

lemma acquisition_factory_Inr:
  assumes "acquisition_technique_factory params = Inr self"
  shows "\<exists>ivb. (ivb = ExecuteInterventionBehaviour \<or> ivb = MonitorInterventionBehaviour)
           \<and> self = Technique_init (Class ''DynamicAcquisitionTechnique''
                 [ivb, OpticalAcquisitionToolkit, FixedDriveAcquisitionVector, AcquisitionTechnique] []) params"
proof -
  from assms obtain tkb vcb ivb cls
    where t: "select_behaviour TOOLKIT_BEHAVIOURS params TOOLKIT_BEHAVIOUR_KEY = Inr tkb"
      and v: "select_behaviour VECTOR_BEHAVIOURS params VECTOR_BEHAVIOUR_KEY = Inr vcb"
      and i: "select_behaviour INTERVENTION_BEHAVIOURS params INTERVENTION_BEHAVIOUR_KEY = Inr ivb"
      and c: "py_type ''DynamicAcquisitionTechnique'' [ivb, tkb, vcb, AcquisitionTechnique] [] = Inr cls"
      and s: "self = Technique_init cls params"
    by (auto simp: acquisition_technique_factory_def Let_def split: sum.splits)
  from select_behaviour_Inr [OF t] have "tkb = OpticalAcquisitionToolkit"
    by (simp add: TOOLKIT_BEHAVIOURS_def)
  moreover from select_behaviour_Inr [OF v] have "vcb = FixedDriveAcquisitionVector"
    by (simp add: VECTOR_BEHAVIOURS_def)
  moreover from select_behaviour_Inr [OF i]
  have "ivb = ExecuteInterventionBehaviour \<or> ivb = MonitorInterventionBehaviour"
    by (auto simp: INTERVENTION_BEHAVIOURS_def)
  moreover from c have "cls = Class ''DynamicAcquisitionTechnique'' [ivb, tkb, vcb, AcquisitionTechnique] []"
    by (auto simp: py_type_def split: option.splits)
  ultimately show ?thesis using s by blast
qed


lemma has_member_map_of: "has_member name c \<Longrightarrow> \<exists>m. map_of (members c) name = Some m"
  by (metis has_member_def domD dom_map_of_conv_image_fst)

lemma Behaviour_members_in_vector:
  "has_member name Behaviour_class \<Longrightarrow> has_member name FixedDriveAcquisitionVector"
  by (auto simp: has_member_def Behaviour_class_def FixedDriveAcquisitionVector_def)

lemma Behaviour_members_not_acquisition:
  "has_member name Behaviour_class \<Longrightarrow> \<not> has_member name AcquisitionTechnique"
  by (auto simp: has_member_def Behaviour_class_def AcquisitionTechnique_def)

lemma first_provider_acquisition:
  assumes order: "mro cls = Some [cls, ivb, OpticalAcquisitionToolkit, FixedDriveAcquisitionVector,
                                   Behaviour_class, AcquisitionTechnique, Technique_class, object_class]"
    and dyn: "members cls = []"
    and first: "find (has_member hook) [ivb, OpticalAcquisitionToolkit, FixedDriveAcquisitionVector,
                                        AcquisitionTechnique] = Some provider"
  shows "\<exists>m. class_lookup cls hook = Some (provider, m) \<and> map_of (members provider) hook = Some m"
proof -
  have nd: "\<not> has_member hook cls" by (simp add: has_member_def dyn)
  from first have hp: "has_member hook provider" by (auto split: if_splits)
  from first Behaviour_members_in_vector [of hook] Behaviour_members_not_acquisition [of hook]
  have "find (has_member hook) [cls, ivb, OpticalAcquisitionToolkit, FixedDriveAcquisitionVector,
           Behaviour_class, AcquisitionTechnique, Technique_class, object_class] = Some provider"
    using nd by (auto split: if_splits)
  with has_member_map_of [OF hp] show ?thesis
    by (auto simp: class_lookup_def order)
qed

text \<open>
  C5. In a technique returned by \<open>acquisition_technique_factory\<close> the bases of the class
  are, in order, the intervention behaviour, the toolkit behaviour, the vector
  behaviour and \<open>AcquisitionTechnique\<close>, and a call of any attribute that one of them
  defines is served by the first of them, in that order, that defines it.
\<close>

theorem hook_served_by_first_provider:
  assumes "acquisition_technique_factory params = Inr self"
    and "find (has_member hook) (bases (klass self)) = Some provider"
  shows "(\<exists>ivb tkb vcb. bases (klass self) = [ivb, tkb, vcb, AcquisitionTechnique]
            \<and> ivb \<in> snd ` set INTERVENTION_BEHAVIOURS
            \<and> tkb \<in> snd ` set TOOLKIT_BEHAVIOURS
            \<and> vcb \<in> snd ` set VECTOR_BEHAVIOURS)
       \<and> (\<exists>m. served_by self hook = Some (provider, m) \<and> map_of (members provider) hook = Some m)"
proof -
  from acquisition_factory_Inr [OF assms(1)] obtain ivb
    where ivb: "ivb = ExecuteInterventionBehaviour \<or> ivb = MonitorInterventionBehaviour"
      and self: "self = Technique_init (Class ''DynamicAcquisitionTechnique''
                 [ivb, OpticalAcquisitionToolkit, FixedDriveAcquisitionVector, AcquisitionTechnique] []) params"
    by blast
  let ?cls = "Class ''DynamicAcquisitionTechnique''
                 [ivb, OpticalAcquisitionToolkit, FixedDriveAcquisitionVector, AcquisitionTechnique] []"
  have k: "klass self = ?cls" by (simp add: self Technique_init_def)
  from ivb have order: "mro ?cls = Some [?cls, ivb, OpticalAcquisitionToolkit, FixedDriveAcquisitionVector,
                                   Behaviour_class, AcquisitionTechnique, Technique_class, object_class]"
    using mro_execute mro_monitor by blast
  from assms(2) have first: "find (has_member hook) [ivb, OpticalAcquisitionToolkit,
      FixedDriveAcquisitionVector, AcquisitionTechnique] = Some provider"
    by (simp add: k)
  have "\<exists>m. served_by self hook = Some (provider, m) \<and> map_of (members provider) hook = Some m"
    unfolding served_by_def k by (rule first_provider_acquisition [OF order _ first]) simp
  moreover have "\<exists>i t v. bases (klass self) = [i, t, v, AcquisitionTechnique]
            \<and> i \<in> snd ` set INTERVENTION_BEHAVIOURS
            \<and> t \<in> snd ` set TOOLKIT_BEHAVIOURS
            \<and> v \<in> snd ` set VECTOR_BEHAVIOURS"
    using ivb by (auto simp: k INTERVENTION_BEHAVIOURS_def TOOLKIT_BEHAVIOURS_def VECTOR_BEHAVIOURS_def)
  ultimately show ?thesis by blast
qed

lemma members_behaviours:
  "members ExecuteInterventionBehaviour =
     [(''invocation_command'', Parameter ''technique.invocation.command''),
      (''invocation_shell'', Parameter ''technique.invocation.shell''),
      (''invocation_cwd'', Parameter ''technique.invocation.cwd''),
      (''standard_output'', Slot ''acquisition.standard-output''),
      (''standard_error'', Slot ''acquisition.standard-error''),
      (''return_code'', Slot ''acquisition.return-code''),
      (''acquire'', Method Concrete)]"
  "members MonitorInterventionBehaviour =
     [(''invocation_command'', Parameter ''technique.invocation.command''),
      (''invocation_interval'', Parameter ''technique.invocation.interval''),
      (''invocation_cwd'', Parameter ''technique.invocation.cwd''),
      (''samples'', Slot ''acquisition.samples''),
      (''standard_output'', Slot ''acquisition.standard-output''),
      (''standard_error'', Slot ''acquisition.standard-error''),
      (''return_code'', Slot ''acquisition.return-code''),
      (''acquire'', Method Concrete)]"
  "members OpticalAcquisitionToolkit =
     [(''toolkit_image'', Parameter ''technique.toolkit.image''),
      (''toolkit_device'', Parameter ''technique.toolkit.device''),
      (''toolkit_tag'', Parameter ''technique.toolkit.tag''),
      (''attach_toolkit'', Method Concrete),
      (''detach_toolkit'', Method Concrete)]"
  "members FixedDriveAcquisitionVector =
     [(''vector_filename'', Parameter ''technique.vector.filename''),
      (''vector_partition'', Parameter ''technique.vector.partition''),
      (''vector_tag'', Parameter ''technique.vector.tag''),
      (''vector_image'', Parameter ''technique.vector.image''),
      (''image_acquired'', Slot ''memory.acquired''),
      (''allocate_behaviour'', Method Concrete),
      (''attach_vector'', Method Concrete),
      (''detach_vector'', Method Concrete),
      (''transfer_acquired_image'', Method Concrete),
      (''release_behaviour'', Method Concrete)]"
  "members FixedDelayBehaviour =
     [(''duration'', Parameter ''technique.duration''), (''idle'', Method Concrete)]"
  "members RandomDelayBehaviour =
     [(''mean'', Parameter ''technique.duration.mean''),
      (''stdev'', Parameter ''technique.duration.stdev''),
      (''idle'', Method Concrete)]"
  by (simp_all add: ExecuteInterventionBehaviour_def MonitorInterventionBehaviour_def
      OpticalAcquisitionToolkit_def FixedDriveAcquisitionVector_def FixedDelayBehaviour_def
      RandomDelayBehaviour_def)

lemma factory_execute_parameters:
  "acquisition_technique_factory execute_parameters = Inr execute_technique"
  by (simp add: acquisition_technique_factory_def select_behaviour_def table_lookup_def
      execute_parameters_def TOOLKIT_BEHAVIOUR_KEY_def VECTOR_BEHAVIOUR_KEY_def
      INTERVENTION_BEHAVIOUR_KEY_def TOOLKIT_BEHAVIOURS_def VECTOR_BEHAVIOURS_def
      INTERVENTION_BEHAVIOURS_def py_type_def mro_execute execute_technique_def execute_class_def
      del: mro.simps)

theorem hook_served_by_first_provider_witness:
  "acquisition_technique_factory execute_parameters = Inr execute_technique
   \<and> find (has_member ''acquire'') (bases (klass execute_technique)) = Some ExecuteInterventionBehaviour
   \<and> has_member ''acquire'' AcquisitionTechnique
   \<and> served_by execute_technique ''acquire'' = Some (ExecuteInterventionBehaviour, Method Concrete)"
proof -
  have f: "find (has_member ''acquire'') (bases (klass execute_technique)) = Some ExecuteInterventionBehaviour"
    by (simp add: execute_technique_def execute_class_def Technique_init_def has_member_def
        members_behaviours)
  have m: "map_of (members ExecuteInterventionBehaviour) ''acquire'' = Some (Method Concrete)"
    by (simp add: members_behaviours)
  have a: "has_member ''acquire'' AcquisitionTechnique"
    by (simp add: has_member_def AcquisitionTechnique_def)
  from hook_served_by_first_provider [OF factory_execute_parameters f] m
  have "served_by execute_technique ''acquire'' = Some (ExecuteInterventionBehaviour, Method Concrete)"
    by auto
  with factory_execute_parameters f a show ?thesis by blast
qed











lemma factory_fixed_delay_parameters:
  "control_technique_factory fixed_delay_parameters =
     Inr (Technique_init (Class ''DynamicControlTechnique'' [FixedDelayBehaviour, ControlTechnique] [])
            fixed_delay_parameters)"
  by (simp add: control_technique_factory_def select_behaviour_def table_lookup_def
      fixed_delay_parameters_def DELAY_BEHAVIOUR_KEY_def DELAY_BEHAVIOURS_def py_type_def
      mro_fixed_delay del: mro.simps)


section \<open>Properties of pypette.interface\<close>

lemma assign_parameter:
  "class_lookup (klass self) name = Some (c, Parameter key) \<Longrightarrow>
   py_setattr self name v = (Inl (AttributeError ''Parameter dictionary is read-only''), self)"
  by (simp add: py_setattr_def parameter_set_def)

text \<open>
  C10. However many assignments are made to attributes that the instance's class
  declares as a \<open>Parameter\<close>, each one raises the \<open>AttributeError\<close> of a read-only
  parameter dictionary, and the instance afterwards, its \<open>parameters\<close> dictionary with
  it, is the instance as it was.
\<close>

theorem parameter_assignment_raises_and_changes_nothing:
  assumes "\<forall>(name, v) \<in> set assignments. \<exists>c key. class_lookup (klass self) name = Some (c, Parameter key)"
  shows "assign_all self assignments =
           (map (\<lambda>a. AttributeError ''Parameter dictionary is read-only'') assignments, self)"
  using assms
proof (induction assignments)
  case Nil
  then show ?case by simp
next
  case (Cons a rest)
  obtain name v where a: "a = (name, v)" by (cases a)
  with Cons.prems obtain c key where "class_lookup (klass self) name = Some (c, Parameter key)"
    by auto
  then have "py_setattr self name v = (Inl (AttributeError ''Parameter dictionary is read-only''), self)"
    by (rule assign_parameter)
  moreover from Cons have "assign_all self rest =
           (map (\<lambda>a. AttributeError ''Parameter dictionary is read-only'') rest, self)"
    by simp
  ultimately show ?case by (simp add: a)
qed

lemma domain_name_members:
  "''domain_name'' \<in> fst ` set (members AcquisitionTechnique)"
  "map_of (members AcquisitionTechnique) ''domain_name'' = Some (Parameter ''technique.domain.name'')"
  "''domain_name'' \<notin> fst ` set (members Behaviour_class)"
  by (simp_all add: AcquisitionTechnique_def Behaviour_class_def)

lemma lookup_domain_name:
  "class_lookup (klass execute_technique) ''domain_name''
     = Some (AcquisitionTechnique, Parameter ''technique.domain.name'')"
  unfolding class_lookup_def execute_technique_def execute_class_def Technique_init_def
  by (simp add: mro_execute has_member_def members_behaviours domain_name_members del: mro.simps)

lemma lookup_invocation_command:
  "class_lookup (klass execute_technique) ''invocation_command''
     = Some (ExecuteInterventionBehaviour, Parameter ''technique.invocation.command'')"
  unfolding class_lookup_def execute_technique_def execute_class_def Technique_init_def
  by (simp add: mro_execute has_member_def members_behaviours del: mro.simps)

theorem parameter_assignment_raises_and_changes_nothing_witness:
  "class_lookup (klass execute_technique) ''domain_name''
     = Some (AcquisitionTechnique, Parameter ''technique.domain.name'')
   \<and> class_lookup (klass execute_technique) ''invocation_command''
     = Some (ExecuteInterventionBehaviour, Parameter ''technique.invocation.command'')
   \<and> assign_all execute_technique [(''domain_name'', PStr ''other''), (''invocation_command'', PStr ''id'')]
       = ([AttributeError ''Parameter dictionary is read-only'',
           AttributeError ''Parameter dictionary is read-only''], execute_technique)
   \<and> parameter_get execute_technique ''technique.domain.name'' = Inr (PStr ''guest'')"
proof -
  have h: "\<forall>(name, v) \<in> set [(''domain_name'', PStr ''other''), (''invocation_command'', PStr ''id'')].
      \<exists>c key. class_lookup (klass execute_technique) name = Some (c, Parameter key)"
    by (simp add: lookup_domain_name lookup_invocation_command)
  have g: "parameter_get execute_technique ''technique.domain.name'' = Inr (PStr ''guest'')"
    by (simp add: parameter_get_def execute_technique_def Technique_init_def execute_parameters_def)
  from parameter_assignment_raises_and_changes_nothing [OF h] lookup_domain_name
    lookup_invocation_command g
  show ?thesis by simp
qed

section \<open>Properties of pypette.experiment\<close>

subsection \<open>Every allocate has its release\<close>

lemma call_each_count_other:
  "(\<And>a. ev a \<noteq> x) \<Longrightarrow> count_list (snd (call_each raises ev as)) x = 0"
  by (induction as) (auto split: option.splits prod.splits)

lemma try_block_counts:
  "count_list (snd (try_block w n k u)) (Allocate j) = (if j = k then 1 else 0)"
  "count_list (snd (try_block w n k u)) (Release j) = 0"
  "count_list (snd (try_block w n k u)) (Construct j) = 0"
  by (auto simp: try_block_def call_each_count_other case_prod_beta split: option.splits)

lemma except_block_counts:
  assumes "x = Allocate j \<or> x = Release j \<or> x = Construct j"
  shows "count_list (trace (snd (except_block w n k u st))) x = count_list (trace st) x"
proof -
  have "count_list (snd (call_each (\<lambda>a. discard_raises w a k) (\<lambda>a. Discard a k u) [0..<n])) x = 0"
    using assms by (intro call_each_count_other) auto
  then show ?thesis
    using assms by (auto simp: except_block_def Let_def case_prod_beta split: sum.splits)
qed

lemma execution_lifecycle:
  assumes "\<forall>j. lifecycle_count st j (f j)"
  shows "\<exists>b. b \<le> 1 \<and> (\<forall>j. lifecycle_count (snd (execution w d n k st)) j (f j + (if j = k then b else 0)))"
proof (cases "get_technique w d")
  case (Inl e)
  then have "snd (execution w d n k st) = st" by (simp add: execution_def)
  with assms show ?thesis by (intro exI [of _ 0]) simp
next
  case (Inr t)
  let ?u = "identities st ! k"
  let ?st1 = "st\<lparr>trace := trace st @ Construct k # snd (try_block w n k ?u)\<rparr>"
  have c1: "\<forall>j. count_list (trace ?st1) (Construct j) = f j + (if j = k then 1 else 0)
                \<and> count_list (trace ?st1) (Allocate j) = f j + (if j = k then 1 else 0)"
    using assms by (simp add: lifecycle_count_def try_block_counts)
  obtain st2 where st2: "st2 = (case fst (try_block w n k ?u) of Inr _ \<Rightarrow> ?st1
                                  | Inl e \<Rightarrow> snd (except_block w n k ?u ?st1))" by simp
  have c2: "\<forall>j. count_list (trace st2) (Construct j) = f j + (if j = k then 1 else 0)
                \<and> count_list (trace st2) (Allocate j) = f j + (if j = k then 1 else 0)"
  proof (cases "fst (try_block w n k ?u)")
    case (Inl e)
    with st2 have "st2 = snd (except_block w n k ?u ?st1)" by simp
    with c1 show ?thesis by (simp add: except_block_counts)
  next
    case (Inr x)
    with st2 c1 show ?thesis by simp
  qed
  have "snd (execution w d n k st) = st2\<lparr>trace := trace st2 @ [Release k]\<rparr>"
    using Inr st2 by (auto simp: execution_def Let_def split: prod.splits sum.splits option.splits)
  moreover have "\<forall>j. count_list (trace st2) (Release j) = f j"
  proof
    fix j
    have "count_list (trace ?st1) (Release j) = f j"
      using assms by (simp add: lifecycle_count_def try_block_counts)
    then show "count_list (trace st2) (Release j) = f j"
      using st2 by (cases "fst (try_block w n k ?u)") (simp_all add: except_block_counts)
  qed
  ultimately have "\<forall>j. lifecycle_count (snd (execution w d n k st)) j (f j + (if j = k then 1 else 0))"
    using c2 by (simp add: lifecycle_count_def)
  then show ?thesis by (intro exI [of _ 1]) simp
qed

lemma conduct_loop_lifecycle:
  assumes "\<forall>j. lifecycle_count st j (f j)" and "\<forall>j. f j \<le> 1" and "\<forall>j \<ge> k. f j = 0"
  shows "\<exists>g. (\<forall>j. g j \<le> 1) \<and> (\<forall>j. lifecycle_count (snd (conduct_loop fuel w d n k st)) j (g j))"
  using assms
proof (induction fuel arbitrary: k st f)
  case 0
  then show ?case by (auto intro!: exI [of _ f])
next
  case (Suc fuel)
  show ?case
  proof (cases "length (identities st) \<le> k")
    case True
    with Suc.prems show ?thesis by (auto intro!: exI [of _ f])
  next
    case False
    from execution_lifecycle [OF Suc.prems(1), of w d n k] obtain b
      where b: "b \<le> 1"
        and c: "\<forall>j. lifecycle_count (snd (execution w d n k st)) j (f j + (if j = k then b else 0))"
      by blast
    let ?f = "\<lambda>j. f j + (if j = k then b else 0)"
    have le: "\<forall>j. ?f j \<le> 1" using Suc.prems(2,3) b by auto
    have zero: "\<forall>j \<ge> Suc k. ?f j = 0" using Suc.prems(3) by auto
    show ?thesis
    proof (cases "fst (execution w d n k st)")
      case (Inl e)
      with False have "snd (conduct_loop (Suc fuel) w d n k st) = snd (execution w d n k st)"
        by (simp add: case_prod_beta)
      with c le show ?thesis by (auto intro!: exI [of _ ?f])
    next
      case (Inr x)
      with False have "conduct_loop (Suc fuel) w d n k st
          = conduct_loop fuel w d n (Suc k) (snd (execution w d n k st))"
        by (simp add: case_prod_beta)
      with Suc.IH [OF c le zero] show ?thesis by simp
    qed
  qed
qed

lemma seed_lifecycle: "lifecycle_count (seed w d) j 0"
  by (auto simp: lifecycle_count_def seed_def Let_def count_list_0_iff)

text \<open>
  C2. In every run of \<open>conduct\<close>, however far it gets and whatever raises, the technique
  of each attempt has \<open>release\<close> called as many times as \<open>allocate\<close>: once if the technique
  was constructed, and never otherwise.
\<close>

theorem release_once_per_allocate:
  "count_list (trace (snd (conduct fuel w d))) (Release k)
     = count_list (trace (snd (conduct fuel w d))) (Allocate k)
   \<and> count_list (trace (snd (conduct fuel w d))) (Allocate k)
     = count_list (trace (snd (conduct fuel w d))) (Construct k)
   \<and> count_list (trace (snd (conduct fuel w d))) (Construct k) \<le> 1"
proof -
  have "\<exists>c \<le> 1. lifecycle_count (snd (conduct fuel w d)) k c"
  proof (cases "get_analysts w d")
    case (Inl e)
    then have "snd (conduct fuel w d) = seed w d" by (simp add: conduct_def Let_def)
    with seed_lifecycle [of w d k] show ?thesis by auto
  next
    case (Inr container)
    let ?n = "length container"
    let ?loop = "conduct_loop fuel w d ?n 0 (seed w d)"
    from conduct_loop_lifecycle [of "seed w d" "\<lambda>j. 0" 0 fuel w d ?n] seed_lifecycle
    obtain g where g: "\<forall>j. g j \<le> 1" "\<forall>j. lifecycle_count (snd ?loop) j (g j)" by auto
    have "\<exists>evs. trace (snd (conduct fuel w d)) = trace (snd ?loop) @ evs
                \<and> (evs = [] \<or> evs = snd (call_each (collate_raises w) Collate [0..<?n]))"
      using Inr
      by (auto simp: conduct_def Let_def case_prod_beta split: option.splits sum.splits prod.splits)
    then obtain evs where t: "trace (snd (conduct fuel w d)) = trace (snd ?loop) @ evs"
      and e: "evs = [] \<or> evs = snd (call_each (collate_raises w) Collate [0..<?n])" by blast
    have "count_list evs (Release k) = 0 \<and> count_list evs (Allocate k) = 0 \<and> count_list evs (Construct k) = 0"
      using e by (auto simp: call_each_count_other)
    with t g(2) have "lifecycle_count (snd (conduct fuel w d)) k (g k)"
      by (simp add: lifecycle_count_def)
    with g(1) show ?thesis by blast
  qed
  then show ?thesis by (auto simp: lifecycle_count_def)
qed

subsection \<open>The identities are the UUIDs drawn\<close>

lemma call_each_set: "set (snd (call_each raises ev as)) \<subseteq> ev ` set as"
  by (induction as) (auto split: option.splits prod.splits)

lemma try_block_set:
  "set (snd (try_block w n k u)) \<subseteq> {Allocate k, Sample k} \<union> (\<lambda>a. Analyse a k u) ` {..<n}"
  using call_each_set [of "\<lambda>a. analyse_raises w a k" "\<lambda>a. Analyse a k u" "[0..<n]"]
  by (auto simp: try_block_def case_prod_beta split: option.splits)

lemma drawn_append:
  assumes "drawn w st"
  shows "drawn w (st\<lparr>identities := identities st @ [uuid4 w (draws st)], draws := Suc (draws st),
                     trace := trace st @ [Mint (uuid4 w (draws st))]\<rparr>)"
proof -
  from assms have ids: "identities st = map (uuid4 w) [0..<length (identities st)]"
    and d: "draws st = length (identities st)" by (simp_all add: drawn_def)
  have "identities st @ [uuid4 w (draws st)] = map (uuid4 w) [0..<Suc (length (identities st))]"
    using ids d by simp
  with assms d show ?thesis by (auto simp: drawn_def less_Suc_eq)
qed

lemma drawn_events:
  assumes "drawn w st" and "k < length (identities st)"
    and "set evs \<subseteq> {Construct k, Allocate k, Sample k, Logged k, Release k}
           \<union> (\<lambda>a. Analyse a k (uuid4 w k)) ` UNIV \<union> (\<lambda>a. Discard a k (uuid4 w k)) ` UNIV"
  shows "drawn w (st\<lparr>trace := trace st @ evs\<rparr>)"
  using assms unfolding drawn_def by simp blast

lemma execution_drawn:
  assumes "drawn w st" and "k < length (identities st)"
  shows "drawn w (snd (execution w d n k st))
       \<and> length (identities st) \<le> length (identities (snd (execution w d n k st)))"
proof (cases "get_technique w d")
  case (Inl e)
  with assms show ?thesis by (simp add: execution_def)
next
  case (Inr t)
  from assms have u: "identities st ! k = uuid4 w k"
    by (metis drawn_def add_0 nth_map_upt diff_zero length_upt nth_map)
  let ?tb = "try_block w n k (uuid4 w k)"
  let ?st1 = "st\<lparr>trace := trace st @ Construct k # snd ?tb\<rparr>"
  have st1: "drawn w ?st1"
    using try_block_set [of w n k "uuid4 w k"] by (intro drawn_events [OF assms]) auto
  let ?dis = "call_each (\<lambda>a. discard_raises w a k) (\<lambda>a. Discard a k (uuid4 w k)) [0..<n]"
  let ?st1' = "?st1\<lparr>trace := trace ?st1 @ Logged k # snd ?dis\<rparr>"
  have len1: "k < length (identities ?st1)" using assms(2) by simp
  have st1': "drawn w ?st1'"
    using call_each_set [of "\<lambda>a. discard_raises w a k" "\<lambda>a. Discard a k (uuid4 w k)" "[0..<n]"]
    by (intro drawn_events [OF st1 len1]) auto
  have ex: "drawn w (snd (except_block w n k (uuid4 w k) ?st1))
          \<and> length (identities st) \<le> length (identities (snd (except_block w n k (uuid4 w k) ?st1)))"
    using st1' drawn_append [OF st1']
    by (cases "fst ?dis") (simp_all add: except_block_def case_prod_beta Let_def)
  let ?st2 = "case fst ?tb of Inr _ \<Rightarrow> ?st1 | Inl e \<Rightarrow> snd (except_block w n k (uuid4 w k) ?st1)"
  have st2: "drawn w ?st2 \<and> length (identities st) \<le> length (identities ?st2)"
    using st1 ex by (cases "fst ?tb") simp_all
  then have len2: "k < length (identities ?st2)" using assms(2) by linarith
  have "drawn w (?st2\<lparr>trace := trace ?st2 @ [Release k]\<rparr>)"
    by (intro drawn_events [OF conjunct1 [OF st2] len2]) auto
  moreover have "snd (execution w d n k st) = ?st2\<lparr>trace := trace ?st2 @ [Release k]\<rparr>"
    using Inr u
    by (cases "fst ?tb"; cases "release_raises w k") (simp_all add: execution_def Let_def case_prod_beta)
  ultimately show ?thesis using st2 by simp
qed

lemma conduct_loop_drawn:
  assumes "drawn w st"
  shows "drawn w (snd (conduct_loop fuel w d n k st))"
  using assms
proof (induction fuel arbitrary: k st)
  case 0
  then show ?case by simp
next
  case (Suc fuel)
  show ?case
  proof (cases "length (identities st) \<le> k")
    case True
    with Suc.prems show ?thesis by simp
  next
    case False
    then have k: "k < length (identities st)" by simp
    note ex = execution_drawn [OF Suc.prems k, of d n]
    show ?thesis
    proof (cases "fst (execution w d n k st)")
      case (Inl e)
      with False ex show ?thesis by (simp add: case_prod_beta)
    next
      case (Inr x)
      with False Suc.IH [OF conjunct1 [OF ex]] show ?thesis by (simp add: case_prod_beta)
    qed
  qed
qed

lemma seed_drawn: "drawn w (seed w d)"
  by (auto simp: drawn_def seed_def Let_def)

lemma conduct_cases:
  assumes "get_analysts w d = Inr container"
  obtains (stopped) r where "r \<noteq> Some (Inr ())"
      and "conduct fuel w d = conduct_loop fuel w d (length container) 0 (seed w d)"
      and "fst (conduct_loop fuel w d (length container) 0 (seed w d)) = r"
    | (collated) st where "conduct_loop fuel w d (length container) 0 (seed w d) = (Some (Inr ()), st)"
      and "conduct fuel w d =
             (Some (fst (call_each (collate_raises w) Collate [0..<length container])),
              st\<lparr>trace := trace st @ snd (call_each (collate_raises w) Collate [0..<length container])\<rparr>)"
proof (cases "conduct_loop fuel w d (length container) 0 (seed w d)")
  case (Pair r st)
  show ?thesis
  proof (cases "r = Some (Inr ())")
    case True
    with Pair assms have "conduct fuel w d =
             (Some (fst (call_each (collate_raises w) Collate [0..<length container])),
              st\<lparr>trace := trace st @ snd (call_each (collate_raises w) Collate [0..<length container])\<rparr>)"
      by (simp add: conduct_def Let_def case_prod_beta del: conduct_loop.simps)
    with True Pair show ?thesis by (intro collated [of st]) simp_all
  next
    case False
    with Pair assms have "conduct fuel w d = conduct_loop fuel w d (length container) 0 (seed w d)"
      by (cases r) (auto simp: conduct_def Let_def simp del: conduct_loop.simps split: sum.splits)
    with False Pair show ?thesis by (intro stopped [of r]) simp_all
  qed
qed

lemma conduct_drawn: "drawn w (snd (conduct fuel w d))"
proof (cases "get_analysts w d")
  case (Inl e)
  then show ?thesis using seed_drawn [of w d] by (simp add: conduct_def Let_def)
next
  case (Inr container)
  let ?loop = "conduct_loop fuel w d (length container) 0 (seed w d)"
  have l: "drawn w (snd ?loop)" by (rule conduct_loop_drawn [OF seed_drawn])
  from Inr show ?thesis
  proof (cases rule: conduct_cases [where fuel = fuel])
    case (stopped r)
    with l show ?thesis by simp
  next
    case (collated st)
    have "set (snd (call_each (collate_raises w) Collate [0..<length container])) \<subseteq> range Collate"
      using call_each_set [of "collate_raises w" Collate "[0..<length container]"] by auto
    with l collated show ?thesis unfolding drawn_def by simp blast
  qed
qed

text \<open>
  C9 as the code has it. In every run of \<open>conduct\<close> the list of identities is the
  sequence of the UUIDs drawn so far, in the order drawn, one per execution asked for
  and one per replacement; attempt \<open>k\<close> hands the \<open>k\<close>-th of them, and no other, to
  \<open>analyse\<close> and \<open>discard\<close>; and the identities are pairwise different when the UUIDs
  drawn are.
\<close>

theorem identities_are_the_uuids_drawn:
  "identities (snd (conduct fuel w d)) = map (uuid4 w) [0..<draws (snd (conduct fuel w d))]
   \<and> (\<forall>a k u. Analyse a k u \<in> set (trace (snd (conduct fuel w d)))
              \<or> Discard a k u \<in> set (trace (snd (conduct fuel w d)))
        \<longrightarrow> k < length (identities (snd (conduct fuel w d))) \<and> u = identities (snd (conduct fuel w d)) ! k)
   \<and> (inj_on (uuid4 w) {..<draws (snd (conduct fuel w d))} \<longrightarrow> distinct (identities (snd (conduct fuel w d))))"
proof -
  let ?st = "snd (conduct fuel w d)"
  from conduct_drawn [of w fuel d]
  have ids: "identities ?st = map (uuid4 w) [0..<length (identities ?st)]"
    and dr: "draws ?st = length (identities ?st)"
    and ev: "\<forall>a k u. Analyse a k u \<in> set (trace ?st) \<or> Discard a k u \<in> set (trace ?st)
               \<longrightarrow> k < length (identities ?st) \<and> u = uuid4 w k"
    by (simp_all add: drawn_def)
  have nth: "identities ?st ! k = uuid4 w k" if "k < length (identities ?st)" for k
    using that ids by (metis add_0 nth_map_upt diff_zero length_upt nth_map)
  have "distinct (identities ?st)" if "inj_on (uuid4 w) {..<draws ?st}"
  proof -
    have "distinct (map (uuid4 w) [0..<length (identities ?st)])"
      using that dr by (simp add: distinct_map atLeast_upt [symmetric] lessThan_atLeast0)
    with ids show ?thesis by simp
  qed
  with ids dr ev nth show ?thesis by auto
qed

subsection \<open>Example runs\<close>

lemma get_technique_control:
  "techniques w = loaded_techniques \<Longrightarrow>
   get_technique w (control_experiment c) =
     Inr (Technique_init (Class ''DynamicControlTechnique'' [FixedDelayBehaviour, ControlTechnique] [])
            fixed_delay_parameters)"
  by (simp add: get_technique_def control_experiment_def loaded_techniques_def register_def
      registry_get_def factory_fixed_delay_parameters)

lemma get_analysts_control:
  "analyst_registry w = loaded_analysts \<Longrightarrow>
   get_analysts w (control_experiment c) =
     Inr [Analyst_init SampleMetadataAnalyst (PDict []), Analyst_init ExperimentMetadataAnalyst (PDict [])]"
  by (simp add: get_analysts_def control_experiment_def loaded_analysts_def register_def
      registry_get_def)

lemmas run_defs = conduct_def seed_def execution_def try_block_def except_block_def Let_def

lemma flaky_run:
  "conduct 2 flaky_world (control_experiment 1) =
     (Some (Inr ()),
      \<lparr>identities = [first_uuid, first_uuid + 1],
       draws = 2,
       trace =
         [Mint first_uuid,
          Construct 0, Allocate 0, Sample 0, Analyse 0 0 first_uuid, Analyse 1 0 first_uuid,
          Logged 0, Discard 0 0 first_uuid, Discard 1 0 first_uuid, Mint (first_uuid + 1), Release 0,
          Construct 1, Allocate 1, Sample 1, Analyse 0 1 (first_uuid + 1), Analyse 1 1 (first_uuid + 1),
          Release 1,
          Collate 0, Collate 1]\<rparr>)"
  by (simp add: run_defs get_technique_control get_analysts_control flaky_world_def)
     (simp add: control_experiment_def)

lemma quiet_run:
  "conduct 2 quiet_world (control_experiment 2) =
     (Some (Inr ()),
      \<lparr>identities = [first_uuid, second_uuid],
       draws = 2,
       trace =
         [Mint first_uuid, Mint second_uuid,
          Construct 0, Allocate 0, Sample 0, Analyse 0 0 first_uuid, Analyse 1 0 first_uuid, Release 0,
          Construct 1, Allocate 1, Sample 1, Analyse 0 1 second_uuid, Analyse 1 1 second_uuid, Release 1,
          Collate 0, Collate 1]\<rparr>)"
  by (simp add: run_defs get_technique_control get_analysts_control quiet_world_def)
     (simp add: control_experiment_def numeral_2_eq_2)


text \<open>
  With \<open>uuid4\<close> returning \<open>first_uuid\<close> and then the smaller \<open>second_uuid\<close>, the identities of
  two executions are not in increasing order.
\<close>

theorem identities_not_increasing_counterexample:
  "\<not> sorted_wrt (<) (identities (snd (conduct 2 quiet_world (control_experiment 2))))"
  by (simp add: quiet_run first_uuid_def second_uuid_def)

lemma example_uuids: "is_uuid4 first_uuid" "is_uuid4 second_uuid" "is_uuid4 (first_uuid + 1)"
  by (simp_all add: is_uuid4_def first_uuid_def second_uuid_def)

theorem identities_are_the_uuids_drawn_witness:
  "inj_on (uuid4 flaky_world) {..<draws (snd (conduct 2 flaky_world (control_experiment 1)))}
   \<and> distinct (identities (snd (conduct 2 flaky_world (control_experiment 1))))
   \<and> identities (snd (conduct 2 flaky_world (control_experiment 1))) = [first_uuid, first_uuid + 1]
   \<and> Discard 1 0 first_uuid \<in> set (trace (snd (conduct 2 flaky_world (control_experiment 1))))"
proof -
  have "inj_on (uuid4 flaky_world) {..<Suc (Suc 0)}"
    by (simp add: flaky_world_def inj_on_def lessThan_Suc)
  then have inj: "inj_on (uuid4 flaky_world) {..<draws (snd (conduct 2 flaky_world (control_experiment 1)))}"
    by (simp add: flaky_run numeral_2_eq_2 [symmetric] del: One_nat_def)
  from identities_are_the_uuids_drawn [of 2 flaky_world "control_experiment 1"] inj
  have "distinct (identities (snd (conduct 2 flaky_world (control_experiment 1))))" by blast
  with inj show ?thesis by (simp add: flaky_run)
qed

text \<open>
  One execution is asked for and the second analyst's \<open>analyse\<close> raises in the first
  attempt: the run returns, and the first analyst has had two \<open>analyse\<close> calls.
\<close>

theorem analyse_calls_counterexample:
  "fst (conduct 2 flaky_world (control_experiment 1)) = Some (Inr ())
   \<and> nat (executions (control_experiment 1)) = 1
   \<and> analyse_calls 0 (trace (snd (conduct 2 flaky_world (control_experiment 1)))) = 2"
proof -
  have "nat (executions (control_experiment 1)) = 1" by (simp add: control_experiment_def)
  then show ?thesis by (simp add: flaky_run analyse_calls_def)
qed
subsection \<open>Failed attempts are replaced\<close>

lemma call_each_all:
  "\<forall>a \<in> set as. raises a = None \<Longrightarrow> call_each raises ev as = (Inr (), map ev as)"
  by (induction as) auto

lemma try_block_uuid: "fst (try_block w n k u) = fst (try_block w n k u')"
proof -
  have "fst (call_each raises ev as) = fst (call_each raises ev' as)" for raises ev ev' and as :: "nat list"
    by (induction as) (auto split: option.splits prod.splits)
  then show ?thesis
    by (auto simp: try_block_def case_prod_beta split: option.splits)
qed

lemma execution_attempt:
  assumes "get_technique w d = Inr t"
    and "\<forall>k. release_raises w k = None" and "\<forall>a k. discard_raises w a k = None"
    and "drawn w st" and "k < length (identities st)"
  shows "execution w d n k st =
           (Inr (),
            st\<lparr>identities := identities st @ (if fails w n k then [uuid4 w (length (identities st))] else []),
               draws := length (identities st) + (if fails w n k then 1 else 0),
               trace := trace st @ attempt_trace w n k (length (identities st))\<rparr>)"
proof -
  from assms(4,5) have u: "identities st ! k = uuid4 w k"
    by (metis drawn_def add_0 nth_map_upt diff_zero length_upt)
  from assms(4) have dr: "draws st = length (identities st)" by (simp add: drawn_def)
  have dis: "call_each (\<lambda>a. discard_raises w a k) (\<lambda>a. Discard a k (uuid4 w k)) [0..<n]
               = (Inr (), map (\<lambda>a. Discard a k (uuid4 w k)) [0..<n])"
    using assms(3) by (intro call_each_all) simp
  show ?thesis
  proof (cases "fst (try_block w n k (uuid4 w k))")
    case (Inl e)
    then have "fails w n k" by (simp add: fails_def)
    with Inl show ?thesis
      using assms(1,2) u dr dis
      by (simp add: execution_def except_block_def attempt_trace_def Let_def case_prod_beta)
  next
    case (Inr x)
    then have "\<not> fails w n k" by (simp add: fails_def)
    with Inr show ?thesis
      using assms(1,2) u dr
      by (simp add: execution_def attempt_trace_def Let_def case_prod_beta)
  qed
qed

lemma call_each_take: "\<exists>m. snd (call_each raises ev as) = map ev (take m as)"
proof (induction as)
  case Nil
  then show ?case by simp
next
  case (Cons a as)
  then obtain m where m: "snd (call_each raises ev as) = map ev (take m as)" by blast
  show ?case
  proof (cases "raises a")
    case None
    with m have "snd (call_each raises ev (a # as)) = map ev (take (Suc m) (a # as))"
      by (simp add: case_prod_beta)
    then show ?thesis by blast
  next
    case (Some e)
    then have "snd (call_each raises ev (a # as)) = map ev (take (Suc 0) (a # as))" by simp
    then show ?thesis by blast
  qed
qed

lemma count_upt: "length (filter (\<lambda>x. x = a) [0..<j]) = (if a < j then 1 else 0)"
  by (induction j) auto

lemma analyse_calls_append: "analyse_calls a (xs @ ys) = analyse_calls a xs + analyse_calls a ys"
  by (simp add: analyse_calls_def)

lemma analyse_calls_prefix:
  "analyse_calls a (map (\<lambda>b. Analyse b k u) (take m [0..<n]))
     = (if Analyse a k u \<in> set (map (\<lambda>b. Analyse b k u) (take m [0..<n])) then 1 else 0)"
proof -
  have t: "take m [0..<n] = [0..<min m n]"
    by (metis add_0 min.commute take_upt min_def take_all length_upt diff_zero linorder_le_cases)
  have "filter (is_analyse a) (map (\<lambda>b. Analyse b k u) [0..<j]) = map (\<lambda>b. Analyse b k u) (filter (\<lambda>x. x = a) [0..<j])" for j
    by (simp add: filter_map comp_def)
  then have "analyse_calls a (map (\<lambda>b. Analyse b k u) [0..<j]) = (if a < j then 1 else 0)" for j
    by (simp add: analyse_calls_def count_upt)
  then show ?thesis by (auto simp: t)
qed

lemma analyse_calls_try_block:
  "analyse_calls a (snd (try_block w n k u)) = (if Analyse a k u \<in> set (snd (try_block w n k u)) then 1 else 0)"
proof -
  obtain m where m: "snd (call_each (\<lambda>a. analyse_raises w a k) (\<lambda>a. Analyse a k u) [0..<n])
                      = map (\<lambda>b. Analyse b k u) (take m [0..<n])"
    using call_each_take by blast
  have none: "analyse_calls a [Allocate k] = 0" "analyse_calls a [Allocate k, Sample k] = 0"
    by (simp_all add: analyse_calls_def)
  show ?thesis
  proof (cases "allocate_raises w k")
    case (Some e)
    then show ?thesis by (simp add: try_block_def none)
  next
    case None
    show ?thesis
    proof (cases "sample_raises w k")
      case (Some e)
      with None show ?thesis by (simp add: try_block_def none)
    next
      case sn: None
      have "snd (try_block w n k u) = [Allocate k, Sample k] @ map (\<lambda>b. Analyse b k u) (take m [0..<n])"
        using None sn m by (simp add: try_block_def case_prod_beta)
      then show ?thesis
        using analyse_calls_prefix [of a k u m n]
        by (simp only: analyse_calls_append none) auto
    qed
  qed
qed

lemma analyse_calls_attempt:
  "analyse_calls a (attempt_trace w n k m) = (if analysed w n a k then 1 else 0)"
proof -
  have d: "analyse_calls a (map (\<lambda>b. Discard b k u) xs) = 0" for u xs
    by (induction xs) (simp_all add: analyse_calls_def)
  have "analyse_calls a (attempt_trace w n k m) = analyse_calls a (snd (try_block w n k (uuid4 w k)))"
    using d [of "uuid4 w k" "[0..<n]"]
    by (simp add: attempt_trace_def analyse_calls_def)
  then show ?thesis by (simp add: analyse_calls_try_block analysed_def)
qed

lemma count_discard_attempt:
  "count_list (attempt_trace w n k m) (Discard a j u)
     = (if j = k \<and> u = uuid4 w k \<and> a < n \<and> fails w n k then 1 else 0)"
proof -
  have t: "count_list (snd (try_block w n k (uuid4 w k))) (Discard a j u) = 0"
    using try_block_set [of w n k "uuid4 w k"] by (auto simp: count_list_0_iff)
  have c: "count_list (map (\<lambda>b. Discard b k (uuid4 w k)) [0..<i]) (Discard a j' u')
             = (if j' = k \<and> u' = uuid4 w k \<and> a < i then 1 else 0)" for i j' u'
    by (induction i) auto
  show ?thesis by (simp add: attempt_trace_def t c)
qed

lemma collate_not_in_attempt: "Collate a \<notin> set (attempt_trace w n k m)"
  using try_block_set [of w n k "uuid4 w k"] by (auto simp: attempt_trace_def)

lemma success_analysed:
  assumes "\<not> fails w n k" and "a < n"
  shows "analysed w n a k"
proof -
  from assms(1) have ok: "fst (try_block w n k (uuid4 w k)) = Inr ()"
    by (cases "fst (try_block w n k (uuid4 w k))") (simp_all add: fails_def)
  have all: "fst (call_each raises ev as) = Inr () \<Longrightarrow> snd (call_each raises ev as) = map ev as"
    for raises ev and as :: "nat list"
    by (induction as) (auto split: option.splits simp: case_prod_beta)
  from ok have "snd (try_block w n k (uuid4 w k))
                  = [Allocate k, Sample k] @ map (\<lambda>b. Analyse b k (uuid4 w k)) [0..<n]"
    using all [of "\<lambda>a. analyse_raises w a k" "\<lambda>a. Analyse a k (uuid4 w k)" "[0..<n]"]
    by (auto simp: try_block_def case_prod_beta split: option.splits)
  with assms(2) show ?thesis by (simp add: analysed_def)
qed

lemma conduct_loop_returns:
  assumes tech: "get_technique w d = Inr t"
    and nr: "\<forall>k. release_raises w k = None" and nd: "\<forall>a k. discard_raises w a k = None"
    and bounded: "\<forall>j \<ge> B. \<not> fails w n j"
    and "drawn w st" and "k \<le> length (identities st)"
    and "(length (identities st) - k) + (B - k) \<le> fuel"
  shows "\<exists>st'. conduct_loop fuel w d n k st = (Some (Inr ()), st') \<and> drawn w st'
      \<and> length (identities st) \<le> length (identities st')
      \<and> length (identities st')
          = length (identities st) + length (filter (fails w n) [k..<length (identities st')])
      \<and> (\<forall>a. analyse_calls a (trace st')
            = analyse_calls a (trace st) + length (filter (analysed w n a) [k..<length (identities st')]))
      \<and> (\<forall>a j u. count_list (trace st') (Discard a j u)
            = count_list (trace st) (Discard a j u)
              + (if k \<le> j \<and> j < length (identities st') \<and> u = uuid4 w j \<and> a < n \<and> fails w n j
                 then 1 else 0))
      \<and> (\<forall>a. Collate a \<in> set (trace st') \<longrightarrow> Collate a \<in> set (trace st))"
  using assms(5-7)
proof (induction fuel arbitrary: k st)
  case 0
  then have "length (identities st) \<le> k" by simp
  with 0 show ?case by simp
next
  case (Suc fuel)
  show ?case
  proof (cases "length (identities st) \<le> k")
    case True
    with Suc.prems show ?thesis by simp
  next
    case False
    then have k: "k < length (identities st)" by simp
    let ?len = "length (identities st)"
    let ?st1 = "st\<lparr>identities := identities st @ (if fails w n k then [uuid4 w ?len] else []),
               draws := ?len + (if fails w n k then 1 else 0),
               trace := trace st @ attempt_trace w n k ?len\<rparr>"
    have ex: "execution w d n k st = (Inr (), ?st1)"
      by (rule execution_attempt [OF tech nr nd Suc.prems(1) k])
    have d1: "drawn w ?st1"
      using execution_drawn [OF Suc.prems(1) k, of d n] ex by simp
    have len1: "length (identities ?st1) = ?len + (if fails w n k then 1 else 0)" by simp
    have kB: "fails w n k \<Longrightarrow> k < B" using bounded by (meson not_le)
    have m1: "(length (identities ?st1) - Suc k) + (B - Suc k) \<le> fuel"
      using Suc.prems(3) k kB by (auto simp: len1)
    have k1: "Suc k \<le> length (identities ?st1)" using k by simp
    from Suc.IH [OF d1 k1 m1] obtain st'
      where loop: "conduct_loop fuel w d n (Suc k) ?st1 = (Some (Inr ()), st')"
        and dr: "drawn w st'"
        and le: "length (identities ?st1) \<le> length (identities st')"
        and ids: "length (identities st')
                    = length (identities ?st1) + length (filter (fails w n) [Suc k..<length (identities st')])"
        and an: "\<forall>a. analyse_calls a (trace st')
                    = analyse_calls a (trace ?st1)
                      + length (filter (analysed w n a) [Suc k..<length (identities st')])"
        and di: "\<forall>a j u. count_list (trace st') (Discard a j u)
                    = count_list (trace ?st1) (Discard a j u)
                      + (if Suc k \<le> j \<and> j < length (identities st') \<and> u = uuid4 w j \<and> a < n \<and> fails w n j
                         then 1 else 0)"
        and co: "\<forall>a. Collate a \<in> set (trace st') \<longrightarrow> Collate a \<in> set (trace ?st1)"
      by blast
    let ?M = "length (identities st')"
    have kM: "k < ?M" using le k by simp
    have upt: "[k..<?M] = k # [Suc k..<?M]" using kM by (simp add: upt_conv_Cons)
    have r: "conduct_loop (Suc fuel) w d n k st = (Some (Inr ()), st')"
      using False ex loop by simp
    have c1: "length (identities st) \<le> ?M" using le by simp
    have c2: "?M = ?len + length (filter (fails w n) [k..<?M])"
      using ids by (auto simp: upt)
    have c3: "\<forall>a. analyse_calls a (trace st')
                = analyse_calls a (trace st) + length (filter (analysed w n a) [k..<?M])"
      using an by (simp add: upt analyse_calls_append analyse_calls_attempt)
    have c4: "\<forall>a j u. count_list (trace st') (Discard a j u)
                = count_list (trace st) (Discard a j u)
                  + (if k \<le> j \<and> j < ?M \<and> u = uuid4 w j \<and> a < n \<and> fails w n j then 1 else 0)"
    proof (intro allI)
      fix a j u
      have "count_list (trace ?st1) (Discard a j u)
              = count_list (trace st) (Discard a j u)
                + (if j = k \<and> u = uuid4 w k \<and> a < n \<and> fails w n k then 1 else 0)"
        by (simp add: count_discard_attempt)
      with di kM show "count_list (trace st') (Discard a j u)
                = count_list (trace st) (Discard a j u)
                  + (if k \<le> j \<and> j < ?M \<and> u = uuid4 w j \<and> a < n \<and> fails w n j then 1 else 0)"
        by (cases "j = k") (auto simp: Suc_le_eq le_eq_less_or_eq)
    qed
    have c5: "\<forall>a. Collate a \<in> set (trace st') \<longrightarrow> Collate a \<in> set (trace st)"
      using co collate_not_in_attempt [of _ w n k ?len] by auto
    from r dr c1 c2 c3 c4 c5 show ?thesis by blast
  qed
qed


lemma filter_upt_split:
  "length (filter P [0..<m]) = length (filter (\<lambda>k. P k \<and> Q k) [0..<m])
     + length (filter (\<lambda>k. P k \<and> \<not> Q k) [0..<m])"
  by (induction m) auto

text \<open>
  C1 as the code has it. Suppose the analysts and the technique can be constructed,
  \<open>release\<close>, \<open>discard\<close> and \<open>collate\<close> never raise, and no attempt from some point on
  fails. Then \<open>conduct\<close> returns. Of the attempts it has made exactly as many succeeded
  as executions were asked for, and each failed one added one identity. Every analyst
  had \<open>discard\<close> called once with the identity of each failed attempt and never with
  another, and \<open>analyse\<close> called once for each successful attempt and once more for each
  failed attempt whose \<open>try\<close> block got as far as that analyst. The trace ends with one
  \<open>collate\<close> per analyst, in order, and has no other. With no failure at all every
  analyst has exactly as many \<open>analyse\<close> calls as executions were asked for.
\<close>

theorem conduct_replaces_failed_attempts:
  assumes "get_analysts w d = Inr container"
    and "get_technique w d = Inr t"
    and "\<forall>k. release_raises w k = None"
    and "\<forall>a k. discard_raises w a k = None"
    and "\<forall>a. collate_raises w a = None"
    and "\<forall>k \<ge> bound. \<not> fails w (length container) k"
  shows "\<exists>fuel st. conduct fuel w d = (Some (Inr ()), st)
      \<and> length (filter (\<lambda>k. \<not> fails w (length container) k) [0..<length (identities st)])
          = nat (executions d)
      \<and> length (identities st)
          = nat (executions d) + length (filter (fails w (length container)) [0..<length (identities st)])
      \<and> (\<forall>a < length container.
            analyse_calls a (trace st)
              = nat (executions d)
                + length (filter (\<lambda>k. fails w (length container) k \<and> analysed w (length container) a k)
                           [0..<length (identities st)]))
      \<and> (\<forall>a k u. count_list (trace st) (Discard a k u)
            = (if k < length (identities st) \<and> u = identities st ! k \<and> a < length container
                  \<and> fails w (length container) k
               then 1 else 0))
      \<and> (\<exists>pre. trace st = pre @ map Collate [0..<length container] \<and> (\<forall>a. Collate a \<notin> set pre))
      \<and> ((\<forall>k. \<not> fails w (length container) k)
           \<longrightarrow> length (identities st) = nat (executions d)
             \<and> (\<forall>a < length container. analyse_calls a (trace st) = nat (executions d)))"
proof -
  let ?n = "length container"
  let ?N = "nat (executions d)"
  let ?st0 = "seed w d"
  have len0: "length (identities ?st0) = ?N" by (simp add: seed_def Let_def)
  have an0: "analyse_calls a (trace ?st0) = 0" for a
    by (simp add: seed_def Let_def analyse_calls_def filter_map comp_def)
  have di0: "count_list (trace ?st0) (Discard a j u) = 0" for a j u
    by (auto simp: seed_def Let_def count_list_0_iff)
  have co0: "Collate a \<notin> set (trace ?st0)" for a
    by (auto simp: seed_def Let_def)
  have fuel: "(length (identities ?st0) - 0) + (bound - 0) \<le> ?N + bound" by (simp add: len0)
  from conduct_loop_returns [OF assms(2,3,4,6) seed_drawn _ fuel]
  obtain st where loop: "conduct_loop (?N + bound) w d ?n 0 ?st0 = (Some (Inr ()), st)"
    and dr: "drawn w st"
    and ids: "length (identities st) = ?N + length (filter (fails w ?n) [0..<length (identities st)])"
    and an: "\<forall>a. analyse_calls a (trace st) = length (filter (analysed w ?n a) [0..<length (identities st)])"
    and di: "\<forall>a j u. count_list (trace st) (Discard a j u)
                = (if j < length (identities st) \<and> u = uuid4 w j \<and> a < ?n \<and> fails w ?n j then 1 else 0)"
    and co: "\<forall>a. Collate a \<notin> set (trace st)"
    by (auto simp: len0 an0 di0 co0)
  let ?M = "length (identities st)"
  let ?st = "st\<lparr>trace := trace st @ map Collate [0..<?n]\<rparr>"
  have collate: "call_each (collate_raises w) Collate [0..<?n] = (Inr (), map Collate [0..<?n])"
    using assms(5) by (intro call_each_all) simp
  have run: "conduct (?N + bound) w d = (Some (Inr ()), ?st)"
    using assms(1) loop collate by (simp add: conduct_def Let_def del: conduct_loop.simps)
  have succ: "length (filter (\<lambda>k. \<not> fails w ?n k) [0..<?M]) = ?N"
    using ids sum_length_filter_compl [of "fails w ?n" "[0..<?M]"] by simp
  have nth: "identities st ! k = uuid4 w k" if "k < ?M" for k
    using that dr by (metis drawn_def add_0 nth_map_upt diff_zero length_upt)
  have calls: "analyse_calls a (trace ?st)
                 = ?N + length (filter (\<lambda>k. fails w ?n k \<and> analysed w ?n a k) [0..<?M])"
    if "a < ?n" for a
  proof -
    have "analyse_calls a (map Collate xs) = 0" for xs
      by (induction xs) (simp_all add: analyse_calls_def)
    then have "analyse_calls a (trace ?st) = length (filter (analysed w ?n a) [0..<?M])"
      using an by (simp add: analyse_calls_append)
    also have "\<dots> = length (filter (\<lambda>k. analysed w ?n a k \<and> fails w ?n k) [0..<?M])
                    + length (filter (\<lambda>k. analysed w ?n a k \<and> \<not> fails w ?n k) [0..<?M])"
      by (rule filter_upt_split)
    also have "filter (\<lambda>k. analysed w ?n a k \<and> \<not> fails w ?n k) [0..<?M]
                 = filter (\<lambda>k. \<not> fails w ?n k) [0..<?M]"
      using success_analysed [OF _ that] by (intro filter_cong) auto
    also have "filter (\<lambda>k. analysed w ?n a k \<and> fails w ?n k) [0..<?M]
                 = filter (\<lambda>k. fails w ?n k \<and> analysed w ?n a k) [0..<?M]"
      by (intro filter_cong) auto
    finally show ?thesis using succ by simp
  qed
  have discards: "count_list (trace ?st) (Discard a k u)
            = (if k < ?M \<and> u = identities st ! k \<and> a < ?n \<and> fails w ?n k then 1 else 0)" for a k u
  proof -
    have "count_list (map Collate xs) (Discard a k u) = 0" for xs
      by (auto simp: count_list_0_iff)
    with di nth show ?thesis by auto
  qed
  have ending: "\<exists>pre. trace ?st = pre @ map Collate [0..<?n] \<and> (\<forall>a. Collate a \<notin> set pre)"
    using co by auto
  have clean: "?M = ?N \<and> (\<forall>a < ?n. analyse_calls a (trace ?st) = ?N)" if "\<forall>k. \<not> fails w ?n k"
    using that ids calls by simp
  have "conduct (?N + bound) w d = (Some (Inr ()), ?st)
      \<and> length (filter (\<lambda>k. \<not> fails w ?n k) [0..<length (identities ?st)]) = ?N
      \<and> length (identities ?st) = ?N + length (filter (fails w ?n) [0..<length (identities ?st)])
      \<and> (\<forall>a < ?n. analyse_calls a (trace ?st)
              = ?N + length (filter (\<lambda>k. fails w ?n k \<and> analysed w ?n a k) [0..<length (identities ?st)]))
      \<and> (\<forall>a k u. count_list (trace ?st) (Discard a k u)
            = (if k < length (identities ?st) \<and> u = identities ?st ! k \<and> a < ?n \<and> fails w ?n k
               then 1 else 0))
      \<and> (\<exists>pre. trace ?st = pre @ map Collate [0..<?n] \<and> (\<forall>a. Collate a \<notin> set pre))
      \<and> ((\<forall>k. \<not> fails w ?n k)
           \<longrightarrow> length (identities ?st) = ?N \<and> (\<forall>a < ?n. analyse_calls a (trace ?st) = ?N))"
    using run succ ids calls discards ending clean by simp
  then show ?thesis by blast
qed

lemma flaky_world_later_attempts: "\<forall>k \<ge> 1. \<not> fails flaky_world (Suc (Suc 0)) k"
  by (simp add: fails_def try_block_def flaky_world_def)

theorem conduct_replaces_failed_attempts_witness:
  "\<exists>fuel st. conduct fuel flaky_world (control_experiment 1) = (Some (Inr ()), st)
     \<and> length (filter (\<lambda>k. \<not> fails flaky_world (Suc (Suc 0)) k) [0..<length (identities st)]) = 1
     \<and> length (identities st)
         = 1 + length (filter (fails flaky_world (Suc (Suc 0))) [0..<length (identities st)])"
proof -
  have a: "get_analysts flaky_world (control_experiment 1) =
     Inr [Analyst_init SampleMetadataAnalyst (PDict []), Analyst_init ExperimentMetadataAnalyst (PDict [])]"
    by (rule get_analysts_control) (simp add: flaky_world_def)
  have t: "get_technique flaky_world (control_experiment 1) =
     Inr (Technique_init (Class ''DynamicControlTechnique'' [FixedDelayBehaviour, ControlTechnique] [])
            fixed_delay_parameters)"
    by (rule get_technique_control) (simp add: flaky_world_def)
  have r: "\<forall>k. release_raises flaky_world k = None" by (simp add: flaky_world_def)
  have d: "\<forall>a k. discard_raises flaky_world a k = None" by (simp add: flaky_world_def)
  have c: "\<forall>a. collate_raises flaky_world a = None" by (simp add: flaky_world_def)
  have b: "\<forall>k \<ge> 1. \<not> fails flaky_world
      (length [Analyst_init SampleMetadataAnalyst (PDict []), Analyst_init ExperimentMetadataAnalyst (PDict [])]) k"
    using flaky_world_later_attempts by simp
  have n: "nat (executions (control_experiment 1)) = 1" by (simp add: control_experiment_def)
  from conduct_replaces_failed_attempts [OF a t r d c b]
  obtain fuel st where "conduct fuel flaky_world (control_experiment 1) = (Some (Inr ()), st)"
    and "length (filter (\<lambda>k. \<not> fails flaky_world
           (length [Analyst_init SampleMetadataAnalyst (PDict []), Analyst_init ExperimentMetadataAnalyst (PDict [])]) k)
           [0..<length (identities st)]) = nat (executions (control_experiment 1))"
    and "length (identities st)
          = nat (executions (control_experiment 1))
            + length (filter (fails flaky_world
           (length [Analyst_init SampleMetadataAnalyst (PDict []), Analyst_init ExperimentMetadataAnalyst (PDict [])]))
           [0..<length (identities st)])"
    by blast
  then have "conduct fuel flaky_world (control_experiment 1) = (Some (Inr ()), st)
     \<and> length (filter (\<lambda>k. \<not> fails flaky_world (Suc (Suc 0)) k) [0..<length (identities st)]) = 1
     \<and> length (identities st)
         = 1 + length (filter (fails flaky_world (Suc (Suc 0))) [0..<length (identities st)])"
    by (simp add: n)
  then show ?thesis by blast
qed

end
